theory Spec2Isabelle
  imports Main
begin

section \<open>Values the loaders receive\<close>

text \<open>
  \<^verbatim>\<open>await res.json()\<close> yields a parsed JSON value. A number is carried by the text that
  \<^verbatim>\<open>Number.prototype.toString\<close> gives for it, which is all the loaders observe of a number
  (its text in a template, and its truthiness: zero, whose text is \<^verbatim>\<open>0\<close>, is the only falsy
  number JSON can produce). An object is the list of its members in source order.
\<close>

datatype json =
    JNull
  | JBool bool
  | JNum string
  | JStr string
  | JArr "json list"
  | JObj "(string \<times> json) list"

text \<open>
  What a property read can produce: \<^verbatim>\<open>undefined\<close>, a JSON value, or a built-in method
  found on a prototype (carried by its name).
\<close>

datatype jsval = Undefined | Json json | NativeFunction string

text \<open>A thrown value: an error object with its \<^verbatim>\<open>name\<close> and \<^verbatim>\<open>message\<close>.\<close>

datatype js_error = JsError (err_name: string) (err_message: string)

definition TypeError :: "string \<Rightarrow> js_error" where
  "TypeError m = JsError ''TypeError'' m"

definition SyntaxError :: "string \<Rightarrow> js_error" where
  "SyntaxError m = JsError ''SyntaxError'' m"

text \<open>\<^verbatim>\<open>`${e}`\<close> on an error object: \<^verbatim>\<open>Error.prototype.toString\<close>.\<close>

definition describe :: "js_error \<Rightarrow> string" where
  "describe e =
     (if err_name e = [] then err_message e
      else if err_message e = [] then err_name e
      else err_name e @ '': '' @ err_message e)"

text \<open>Sequencing of steps that may throw (\<open>Inl\<close> is the thrown error).\<close>

definition bind :: "js_error + 'a \<Rightarrow> ('a \<Rightarrow> js_error + 'b) \<Rightarrow> js_error + 'b" where
  "bind m f = (case m of Inl e \<Rightarrow> Inl e | Inr x \<Rightarrow> f x)"

text \<open>
  The own property \<open>k\<close> of a parsed object: \<^verbatim>\<open>JSON.parse\<close> keeps the last of several
  members with one key.
\<close>

definition own_property :: "(string \<times> json) list \<Rightarrow> string \<Rightarrow> json option" where
  "own_property kvs k = map_of (rev kvs) k"

text \<open>
  \<^verbatim>\<open>v.k\<close> for the property names the loaders read (\<^verbatim>\<open>items\<close>, \<^verbatim>\<open>sources\<close>, \<^verbatim>\<open>headline\<close>,
  \<^verbatim>\<open>summary\<close>, \<^verbatim>\<open>why\<close>, \<^verbatim>\<open>link\<close>, \<^verbatim>\<open>from\<close>, \<^verbatim>\<open>url\<close>): none is an index, \<^verbatim>\<open>length\<close> or a
  member of \<^verbatim>\<open>Object.prototype\<close>, \<^verbatim>\<open>Array.prototype\<close>, \<^verbatim>\<open>Number.prototype\<close> or
  \<^verbatim>\<open>Boolean.prototype\<close>; on a string, \<^verbatim>\<open>link\<close> is the method \<^verbatim>\<open>String.prototype.link\<close>.
  Reading a property of \<^verbatim>\<open>null\<close> throws.
\<close>

fun get_prop :: "json \<Rightarrow> string \<Rightarrow> js_error + jsval" where
  "get_prop JNull k = Inl (TypeError (''Cannot read properties of null, reading '' @ k))"
| "get_prop (JObj kvs) k =
     Inr (case own_property kvs k of None \<Rightarrow> Undefined | Some v \<Rightarrow> Json v)"
| "get_prop (JStr s) k = Inr (if k = ''link'' then NativeFunction ''link'' else Undefined)"
| "get_prop (JBool b) k = Inr Undefined"
| "get_prop (JNum t) k = Inr Undefined"
| "get_prop (JArr xs) k = Inr Undefined"

text \<open>\<^verbatim>\<open>ToBoolean\<close>: what \<^verbatim>\<open>? :\<close> and \<^verbatim>\<open>||\<close> test.\<close>

fun truthy :: "jsval \<Rightarrow> bool" where
  "truthy Undefined = False"
| "truthy (Json JNull) = False"
| "truthy (Json (JBool b)) = b"
| "truthy (Json (JNum t)) = (t \<noteq> ''0'')"
| "truthy (Json (JStr s)) = (s \<noteq> [])"
| "truthy (Json (JArr xs)) = True"
| "truthy (Json (JObj kvs)) = True"
| "truthy (NativeFunction f) = True"

text \<open>What \<^verbatim>\<open>??\<close> replaces: \<^verbatim>\<open>null\<close> and \<^verbatim>\<open>undefined\<close> only.\<close>

fun nullish :: "jsval \<Rightarrow> bool" where
  "nullish Undefined = True"
| "nullish (Json JNull) = True"
| "nullish v = False"

text \<open>
  \<^verbatim>\<open>ToString\<close>, as a template literal applies it. An array joins its elements with commas,
  \<^verbatim>\<open>null\<close> elements giving the empty text. A plain object gives \<^verbatim>\<open>[object Object]\<close>, unless
  it has a member \<^verbatim>\<open>toString\<close> of its own: a parsed member is never callable, and
  \<^verbatim>\<open>valueOf\<close> (its own, not callable, or the inherited one, which returns the object) gives
  no primitive either, so the conversion throws.
\<close>

fun to_string :: "json \<Rightarrow> js_error + string"
  and join :: "json list \<Rightarrow> js_error + string" where
  "to_string JNull = Inr ''null''"
| "to_string (JBool b) = Inr (if b then ''true'' else ''false'')"
| "to_string (JNum t) = Inr t"
| "to_string (JStr s) = Inr s"
| "to_string (JArr xs) = join xs"
| "to_string (JObj kvs) =
     (if own_property kvs ''toString'' = None then Inr ''[object Object]''
      else Inl (TypeError ''Cannot convert object to primitive value''))"
| "join [] = Inr []"
| "join (x # xs) =
     (case (case x of JNull \<Rightarrow> Inr [] | _ \<Rightarrow> to_string x) of
        Inl e \<Rightarrow> Inl e
      | Inr s \<Rightarrow>
         (case join xs of
            Inl e \<Rightarrow> Inl e
          | Inr r \<Rightarrow> Inr (if xs = [] then s else s @ '','' @ r)))"

fun to_string_val :: "jsval \<Rightarrow> js_error + string" where
  "to_string_val Undefined = Inr ''undefined''"
| "to_string_val (Json v) = to_string v"
| "to_string_val (NativeFunction f) = Inr (''function '' @ f @ ''() { [native code] }'')"

text \<open>\<^verbatim>\<open>${v.k}\<close> and \<^verbatim>\<open>${v.k ?? d}\<close> in a template.\<close>

definition interp :: "json \<Rightarrow> string \<Rightarrow> js_error + string" where
  "interp v k = bind (get_prop v k) to_string_val"

definition interp_or :: "json \<Rightarrow> string \<Rightarrow> string \<Rightarrow> js_error + string" where
  "interp_or v k d = bind (get_prop v k) (\<lambda>x. if nullish x then Inr d else to_string_val x)"

section \<open>The page\<close>

text \<open>
  An element built by \<^verbatim>\<open>document.createElement\<close>, and a container of the page: the markup
  last assigned to its \<^verbatim>\<open>innerHTML\<close> and the elements appended since. The page maps each
  element id to its container; \<^verbatim>\<open>getElementById\<close> gives \<^verbatim>\<open>null\<close> (\<open>None\<close>) for an id
  the page does not have.
\<close>

record element =
  tagName :: string
  className :: string
  innerHTML :: string

record container =
  html :: string
  children :: "element list"

type_synonym page = "string \<rightharpoonup> container"

type_synonym handle = "string option"

text \<open>A step on the page: the error it threw, if any, and the page it left.\<close>

type_synonym step = "page \<Rightarrow> js_error option \<times> page"

definition getElementById :: "page \<Rightarrow> string \<Rightarrow> handle" where
  "getElementById pg i = (if pg i = None then None else Some i)"

definition set_innerHTML :: "handle \<Rightarrow> string \<Rightarrow> step" where
  "set_innerHTML h s pg =
     (case h of
        None \<Rightarrow> (Some (TypeError ''Cannot set properties of null, setting innerHTML''), pg)
      | Some i \<Rightarrow>
         (case pg i of
            None \<Rightarrow> (None, pg)
          | Some c \<Rightarrow> (None, pg(i \<mapsto> \<lparr>html = s, children = []\<rparr>))))"

definition appendChild :: "handle \<Rightarrow> element \<Rightarrow> step" where
  "appendChild h el pg =
     (case h of
        None \<Rightarrow> (Some (TypeError ''Cannot read properties of null, reading appendChild''), pg)
      | Some i \<Rightarrow>
         (case pg i of
            None \<Rightarrow> (None, pg)
          | Some c \<Rightarrow> (None, pg(i \<mapsto> c\<lparr>children := children c @ [el]\<rparr>))))"

definition createElement :: "string \<Rightarrow> element" where
  "createElement tag = \<lparr>tagName = tag, className = [], innerHTML = []\<rparr>"

text \<open>\<^verbatim>\<open>xs.forEach(f)\<close>: the callback on each element in index order, stopping at a throw.\<close>

fun forEach :: "json list \<Rightarrow> (json \<Rightarrow> step) \<Rightarrow> step" where
  "forEach [] f pg = (None, pg)"
| "forEach (x # xs) f pg =
     (case f x pg of
        (Some e, pg') \<Rightarrow> (Some e, pg')
      | (None, pg') \<Rightarrow> forEach xs f pg')"

text \<open>
  \<^verbatim>\<open>(v || []).forEach(f)\<close>: a falsy \<open>v\<close> is replaced by the empty array; a truthy one that
  is no array has no callable \<^verbatim>\<open>forEach\<close>.
\<close>

definition or_empty_forEach :: "jsval \<Rightarrow> (json \<Rightarrow> step) \<Rightarrow> step" where
  "or_empty_forEach v f pg =
     (if truthy v then
        (case v of
           Json (JArr xs) \<Rightarrow> forEach xs f pg
         | _ \<Rightarrow> (Some (TypeError ''forEach is not a function''), pg))
      else forEach [] f pg)"

section \<open>The request\<close>

text \<open>
  \<^verbatim>\<open>fetch\<close> rejects when the request cannot complete and resolves with the response
  otherwise, whatever its status. \<open>json_body\<close> is what \<^verbatim>\<open>res.json()\<close> settles to: the parsed
  body, or the error it rejects with.
\<close>

record response =
  status :: nat
  json_body :: "js_error + json"

datatype fetch_outcome = Rejected js_error | Resolved response

text \<open>
  A loader is an \<^verbatim>\<open>async\<close> function: it runs without a pause up to the call of \<^verbatim>\<open>fetch\<close>,
  which issues the request, and goes on when the request has settled. What can be seen of
  one call is the page at the moment the request is issued and the page when the function's
  promise resolves.
\<close>

record run =
  at_request :: page
  settled :: page

section \<open>sources.js\<close>

definition source_entry_html :: "json \<Rightarrow> js_error + string" where
  \<open>source_entry_html s =
     bind (interp s ''from'') (\<lambda>a.
     bind (interp s ''url'') (\<lambda>b.
     bind (interp s ''url'') (\<lambda>c.
       Inr (''['' @ a @ ''] <a href="'' @ b @ ''" target="_blank" rel="noopener">'' @ c @ ''</a>''))))\<close>

definition loadSources_each :: "handle \<Rightarrow> json \<Rightarrow> step" where
  "loadSources_each list s pg =
     (case source_entry_html s of
        Inl e \<Rightarrow> (Some e, pg)
      | Inr h \<Rightarrow> appendChild list ((createElement ''li'')\<lparr>innerHTML := h\<rparr>) pg)"

text \<open>Lines 2 and 3: what has run when \<^verbatim>\<open>fetch\<close> is called.\<close>

definition loadSources_begin :: step where
  "loadSources_begin pg =
     set_innerHTML (getElementById pg ''sources-agg'') ''<li>Loading...</li>'' pg"

text \<open>The \<^verbatim>\<open>try\<close> block.\<close>

definition loadSources_try :: "handle \<Rightarrow> fetch_outcome \<Rightarrow> step" where
  "loadSources_try list out pg =
     (case out of
        Rejected e \<Rightarrow> (Some e, pg)
      | Resolved res \<Rightarrow>
         (case json_body res of
            Inl e \<Rightarrow> (Some e, pg)
          | Inr data \<Rightarrow>
             (case set_innerHTML list [] pg of
                (Some e, pg1) \<Rightarrow> (Some e, pg1)
              | (None, pg1) \<Rightarrow>
                 (case get_prop data ''sources'' of
                    Inl e \<Rightarrow> (Some e, pg1)
                  | Inr v \<Rightarrow> or_empty_forEach v (loadSources_each list) pg1))))"

text \<open>
  The whole call. \<open>Inl e\<close>: the function's promise rejects with \<open>e\<close> (an error thrown outside
  the \<^verbatim>\<open>try\<close> block); \<open>Inr r\<close>: it resolves, the request having been issued on the page
  \<open>at_request r\<close>, the first statement of the \<^verbatim>\<open>try\<close> block being the call of \<^verbatim>\<open>fetch\<close>.
  \<open>loadSources\<close> is the page the call leaves.
\<close>

definition loadSources_run :: "fetch_outcome \<Rightarrow> page \<Rightarrow> js_error + run" where
  "loadSources_run out pg =
     (let list = getElementById pg ''sources-agg'' in
      case loadSources_begin pg of
        (Some e, pg0) \<Rightarrow> Inl e
      | (None, pg0) \<Rightarrow>
         (case loadSources_try list out pg0 of
            (None, pg1) \<Rightarrow> Inr \<lparr>at_request = pg0, settled = pg1\<rparr>
          | (Some e, pg1) \<Rightarrow>
             (case set_innerHTML list (''<li>Failed to load sources. '' @ describe e @ ''</li>'') pg1 of
                (Some e', pg2) \<Rightarrow> Inl e'
              | (None, pg2) \<Rightarrow> Inr \<lparr>at_request = pg0, settled = pg2\<rparr>)))"

definition loadSources :: "fetch_outcome \<Rightarrow> page \<Rightarrow> js_error + page" where
  "loadSources out pg = (case loadSources_run out pg of Inl e \<Rightarrow> Inl e | Inr r \<Rightarrow> Inr (settled r))"

section \<open>improvements.js\<close>

text \<open>
  The template of one item, each \<^verbatim>\<open>${...}\<close> of it in turn, and the link of one source.
\<close>

definition why_block :: "json \<Rightarrow> js_error + string" where
  "why_block item =
     bind (get_prop item ''why'') (\<lambda>v.
       if truthy v
       then bind (interp item ''why'') (\<lambda>w.
              Inr (''<p><strong>Why it matters:</strong> '' @ w @ ''</p>''))
       else Inr [])"

text \<open>The link block, which the news script has too, with a label of its own.\<close>

definition link_block :: "string \<Rightarrow> json \<Rightarrow> js_error + string" where
  \<open>link_block label item =
     bind (get_prop item ''link'') (\<lambda>v.
       if truthy v
       then bind (interp item ''link'') (\<lambda>l.
              Inr (''<p class="link"><a href="'' @ l @
                   ''" target="_blank" rel="noopener">'' @ label @ ''</a></p>''))
       else Inr [])\<close>

definition improvement_item_html :: "json \<Rightarrow> js_error + string" where
  "improvement_item_html item =
     bind (interp_or item ''headline'' ''Untitled'') (\<lambda>h.
     bind (interp_or item ''summary'' []) (\<lambda>s.
     bind (why_block item) (\<lambda>why.
     bind (link_block ''Read documentation'' item) (\<lambda>link.
       Inr (''\<newline>        <h3>'' @ h @ ''</h3>\<newline>        <p>'' @ s @ ''</p>\<newline>        '' @ why @
            ''\<newline>        '' @ link @ ''\<newline>      '')))))"

definition source_link_html :: "json \<Rightarrow> js_error + string" where
  \<open>source_link_html url =
     bind (to_string url) (\<lambda>a.
     bind (to_string url) (\<lambda>b.
       Inr (''<a href="'' @ a @ ''" target="_blank" rel="noopener">'' @ b @ ''</a>'')))\<close>

definition loadImprovements_item :: "handle \<Rightarrow> json \<Rightarrow> step" where
  "loadImprovements_item listEl item pg =
     (case improvement_item_html item of
        Inl e \<Rightarrow> (Some e, pg)
      | Inr h \<Rightarrow> appendChild listEl ((createElement ''div'')\<lparr>className := ''item'', innerHTML := h\<rparr>) pg)"

definition append_source_link :: "handle \<Rightarrow> json \<Rightarrow> step" where
  "append_source_link sourcesEl url pg =
     (case source_link_html url of
        Inl e \<Rightarrow> (Some e, pg)
      | Inr h \<Rightarrow> appendChild sourcesEl ((createElement ''li'')\<lparr>innerHTML := h\<rparr>) pg)"

text \<open>Lines 2 to 5: what has run when \<^verbatim>\<open>fetch\<close> is called.\<close>

definition loadImprovements_begin :: step where
  "loadImprovements_begin pg =
     set_innerHTML (getElementById pg ''improvements-list'') ''<p>Loading...</p>'' pg"

text \<open>
  The two regions of the \<^verbatim>\<open>try\<close> block, which improvements.js and the news script share
  but for the item callback: clear the list and fill it from \<^verbatim>\<open>data.items\<close>, then clear the
  sources and fill them from \<^verbatim>\<open>data.sources\<close>.
\<close>

definition render_feed :: "(json \<Rightarrow> step) \<Rightarrow> handle \<Rightarrow> handle \<Rightarrow> json \<Rightarrow> step" where
  "render_feed each_item listEl sourcesEl data pg =
     (case set_innerHTML listEl [] pg of
        (Some e, pg1) \<Rightarrow> (Some e, pg1)
      | (None, pg1) \<Rightarrow>
         (case get_prop data ''items'' of
            Inl e \<Rightarrow> (Some e, pg1)
          | Inr v \<Rightarrow>
             (case or_empty_forEach v each_item pg1 of
                (Some e, pg2) \<Rightarrow> (Some e, pg2)
              | (None, pg2) \<Rightarrow>
                 (case set_innerHTML sourcesEl [] pg2 of
                    (Some e, pg3) \<Rightarrow> (Some e, pg3)
                  | (None, pg3) \<Rightarrow>
                     (case get_prop data ''sources'' of
                        Inl e \<Rightarrow> (Some e, pg3)
                      | Inr w \<Rightarrow> or_empty_forEach w (append_source_link sourcesEl) pg3)))))"

definition loadImprovements_try :: "handle \<Rightarrow> handle \<Rightarrow> fetch_outcome \<Rightarrow> step" where
  "loadImprovements_try listEl sourcesEl out pg =
     (case out of
        Rejected e \<Rightarrow> (Some e, pg)
      | Resolved res \<Rightarrow>
         (case json_body res of
            Inl e \<Rightarrow> (Some e, pg)
          | Inr data \<Rightarrow> render_feed (loadImprovements_item listEl) listEl sourcesEl data pg))"

definition loadImprovements_run :: "fetch_outcome \<Rightarrow> page \<Rightarrow> js_error + run" where
  "loadImprovements_run out pg =
     (let listEl = getElementById pg ''improvements-list'';
          sourcesEl = getElementById pg ''sources-list'' in
      case loadImprovements_begin pg of
        (Some e, pg0) \<Rightarrow> Inl e
      | (None, pg0) \<Rightarrow>
         (case loadImprovements_try listEl sourcesEl out pg0 of
            (None, pg1) \<Rightarrow> Inr \<lparr>at_request = pg0, settled = pg1\<rparr>
          | (Some e, pg1) \<Rightarrow>
             (case set_innerHTML listEl (''<p>Failed to load improvements. '' @ describe e @ ''</p>'') pg1 of
                (Some e', pg2) \<Rightarrow> Inl e'
              | (None, pg2) \<Rightarrow> Inr \<lparr>at_request = pg0, settled = pg2\<rparr>)))"

definition loadImprovements :: "fetch_outcome \<Rightarrow> page \<Rightarrow> js_error + page" where
  "loadImprovements out pg = (case loadImprovements_run out pg of Inl e \<Rightarrow> Inl e | Inr r \<Rightarrow> Inr (settled r))"

section \<open>The news script\<close>

definition news_item_html :: "json \<Rightarrow> js_error + string" where
  "news_item_html item =
     bind (interp_or item ''headline'' ''Untitled'') (\<lambda>h.
     bind (interp_or item ''summary'' []) (\<lambda>s.
     bind (link_block ''Open article'' item) (\<lambda>link.
       Inr (''\<newline>        <h3>'' @ h @ ''</h3>\<newline>        <p>'' @ s @ ''</p>\<newline>        '' @ link @
            ''\<newline>      ''))))"

definition loadNews_item :: "handle \<Rightarrow> json \<Rightarrow> step" where
  "loadNews_item newsEl item pg =
     (case news_item_html item of
        Inl e \<Rightarrow> (Some e, pg)
      | Inr h \<Rightarrow> appendChild newsEl ((createElement ''div'')\<lparr>className := ''item'', innerHTML := h\<rparr>) pg)"

definition loadNews_begin :: step where
  "loadNews_begin pg =
     set_innerHTML (getElementById pg ''news-list'') ''<p>Loading...</p>'' pg"

definition loadNews_try :: "handle \<Rightarrow> handle \<Rightarrow> fetch_outcome \<Rightarrow> step" where
  "loadNews_try newsEl sourcesEl out pg =
     (case out of
        Rejected e \<Rightarrow> (Some e, pg)
      | Resolved res \<Rightarrow>
         (case json_body res of
            Inl e \<Rightarrow> (Some e, pg)
          | Inr data \<Rightarrow> render_feed (loadNews_item newsEl) newsEl sourcesEl data pg))"

definition loadNews_run :: "fetch_outcome \<Rightarrow> page \<Rightarrow> js_error + run" where
  "loadNews_run out pg =
     (let newsEl = getElementById pg ''news-list'';
          sourcesEl = getElementById pg ''sources-list'' in
      case loadNews_begin pg of
        (Some e, pg0) \<Rightarrow> Inl e
      | (None, pg0) \<Rightarrow>
         (case loadNews_try newsEl sourcesEl out pg0 of
            (None, pg1) \<Rightarrow> Inr \<lparr>at_request = pg0, settled = pg1\<rparr>
          | (Some e, pg1) \<Rightarrow>
             (case set_innerHTML newsEl (''<p>Failed to load news. '' @ describe e @ ''</p>'') pg1 of
                (Some e', pg2) \<Rightarrow> Inl e'
              | (None, pg2) \<Rightarrow> Inr \<lparr>at_request = pg0, settled = pg2\<rparr>)))"

definition loadNews :: "fetch_outcome \<Rightarrow> page \<Rightarrow> js_error + page" where
  "loadNews out pg = (case loadNews_run out pg of Inl e \<Rightarrow> Inl e | Inr r \<Rightarrow> Inr (settled r))"

section \<open>Describing responses and rendered regions\<close>

text \<open>
  The sequence a response holds under a key (empty when there is none), the fragments a
  template yields for the entries before the first one it throws on, and that first throw.
\<close>

definition entries :: "json \<Rightarrow> string \<Rightarrow> json list" where
  "entries data k = (case get_prop data k of Inr (Json (JArr xs)) \<Rightarrow> xs | _ \<Rightarrow> [])"

fun rendered :: "(json \<Rightarrow> js_error + string) \<Rightarrow> json list \<Rightarrow> string list" where
  "rendered t [] = []"
| "rendered t (x # xs) = (case t x of Inl e \<Rightarrow> [] | Inr h \<Rightarrow> h # rendered t xs)"

fun first_failure :: "(json \<Rightarrow> js_error + string) \<Rightarrow> json list \<Rightarrow> js_error option" where
  "first_failure t [] = None"
| "first_failure t (x # xs) = (case t x of Inl e \<Rightarrow> Some e | Inr h \<Rightarrow> first_failure t xs)"

text \<open>The elements the callbacks build around a fragment, and a container showing markup only.\<close>

definition li :: "string \<Rightarrow> element" where
  "li h = \<lparr>tagName = ''li'', className = [], innerHTML = h\<rparr>"

definition item_div :: "string \<Rightarrow> element" where
  "item_div h = \<lparr>tagName = ''div'', className = ''item'', innerHTML = h\<rparr>"

definition showing :: "string \<Rightarrow> container" where
  "showing s = \<lparr>html = s, children = []\<rparr>"

text \<open>
  A region rendered in full from a sequence: no markup of its own, and one element per
  entry, in the order of the sequence, holding the fragment of that entry.
\<close>

definition full_render ::
  "(json \<Rightarrow> js_error + string) \<Rightarrow> (string \<Rightarrow> element) \<Rightarrow> json list \<Rightarrow> container \<Rightarrow> bool" where
  "full_render t mk xs c =
     (html c = [] \<and> length (children c) = length xs \<and>
      map t xs = map (\<lambda>el. Inr (innerHTML el)) (children c) \<and>
      children c = map (\<lambda>el. mk (innerHTML el)) (children c))"

text \<open>
  Responses of the shape the endpoints document: an object whose \<^verbatim>\<open>items\<close> and \<^verbatim>\<open>sources\<close>,
  when present, are arrays; a source entry has the strings \<^verbatim>\<open>from\<close> and \<^verbatim>\<open>url\<close>; the fields
  of an item are strings where present; a source of a feed is a string.
\<close>

fun is_string :: "json \<Rightarrow> bool" where
  "is_string (JStr s) = True"
| "is_string v = False"

definition optional_string :: "json option \<Rightarrow> bool" where
  "optional_string v = (case v of None \<Rightarrow> True | Some x \<Rightarrow> is_string x)"

definition required_string :: "json option \<Rightarrow> bool" where
  "required_string v = (case v of None \<Rightarrow> False | Some x \<Rightarrow> is_string x)"

definition valid_source_entry :: "json \<Rightarrow> bool" where
  "valid_source_entry s =
     (case s of
        JObj kvs \<Rightarrow>
          required_string (own_property kvs ''from'') \<and> required_string (own_property kvs ''url'')
      | _ \<Rightarrow> False)"

definition valid_item :: "json \<Rightarrow> bool" where
  "valid_item item =
     (case item of
        JObj kvs \<Rightarrow>
          optional_string (own_property kvs ''headline'') \<and>
          optional_string (own_property kvs ''summary'') \<and>
          optional_string (own_property kvs ''why'') \<and>
          optional_string (own_property kvs ''link'')
      | _ \<Rightarrow> False)"

definition optional_array :: "(json \<Rightarrow> bool) \<Rightarrow> json option \<Rightarrow> bool" where
  "optional_array ok v =
     (case v of None \<Rightarrow> True | Some (JArr xs) \<Rightarrow> list_all ok xs | Some _ \<Rightarrow> False)"

definition valid_sources_response :: "json \<Rightarrow> bool" where
  "valid_sources_response data =
     (case data of
        JObj kvs \<Rightarrow> optional_array valid_source_entry (own_property kvs ''sources'')
      | _ \<Rightarrow> False)"

definition valid_feed_response :: "json \<Rightarrow> bool" where
  "valid_feed_response data =
     (case data of
        JObj kvs \<Rightarrow>
          optional_array valid_item (own_property kvs ''items'') \<and>
          optional_array is_string (own_property kvs ''sources'')
      | _ \<Rightarrow> False)"

text \<open>
  What the \<^verbatim>\<open>try\<close> block of each loader does on a page: the error its \<^verbatim>\<open>catch\<close> clause
  receives, if any, and the page at that point.
\<close>

definition loadSources_attempt :: "fetch_outcome \<Rightarrow> page \<Rightarrow> js_error option \<times> page" where
  "loadSources_attempt out pg =
     loadSources_try (getElementById pg ''sources-agg'') out (snd (loadSources_begin pg))"

definition loadImprovements_attempt :: "fetch_outcome \<Rightarrow> page \<Rightarrow> js_error option \<times> page" where
  "loadImprovements_attempt out pg =
     loadImprovements_try (getElementById pg ''improvements-list'')
       (getElementById pg ''sources-list'') out (snd (loadImprovements_begin pg))"

definition loadNews_attempt :: "fetch_outcome \<Rightarrow> page \<Rightarrow> js_error option \<times> page" where
  "loadNews_attempt out pg =
     loadNews_try (getElementById pg ''news-list'')
       (getElementById pg ''sources-list'') out (snd (loadNews_begin pg))"

text \<open>
  The failure of the request itself: the rejection of \<^verbatim>\<open>fetch\<close>, or of \<^verbatim>\<open>res.json()\<close> on a body
  that does not parse.
\<close>

definition request_failure :: "fetch_outcome \<Rightarrow> js_error option" where
  "request_failure out =
     (case out of
        Rejected e \<Rightarrow> Some e
      | Resolved res \<Rightarrow> (case json_body res of Inl e \<Rightarrow> Some e | Inr data \<Rightarrow> None))"

text \<open>
  What filling a region from \<^verbatim>\<open>(data.k || []).forEach\<close> throws, and the region it leaves.
\<close>

definition sequence_failure ::
  "(json \<Rightarrow> js_error + string) \<Rightarrow> json \<Rightarrow> string \<Rightarrow> js_error option" where
  "sequence_failure t data k =
     (case get_prop data k of
        Inl e \<Rightarrow> Some e
      | Inr v \<Rightarrow>
         if truthy v then
           (case v of
              Json (JArr xs) \<Rightarrow> first_failure t xs
            | _ \<Rightarrow> Some (TypeError ''forEach is not a function''))
         else None)"

definition region ::
  "(json \<Rightarrow> js_error + string) \<Rightarrow> (string \<Rightarrow> element) \<Rightarrow> json \<Rightarrow> string \<Rightarrow> container" where
  "region t mk data k = \<lparr>html = [], children = map mk (rendered t (entries data k))\<rparr>"

text \<open>An object without its member \<open>k\<close>.\<close>

definition without :: "string \<Rightarrow> (string \<times> json) list \<Rightarrow> (string \<times> json) list" where
  "without k kvs = filter (\<lambda>kv. fst kv \<noteq> k) kvs"

section \<open>Tags in generated markup\<close>

text \<open>
  The tags of a piece of markup, as a tokenizer of HTML finds them: a tag runs from a \<^verbatim>\<open><\<close>
  in text to the next \<^verbatim>\<open>>\<close> that is not inside a quoted attribute value; a quote opens a value
  only after \<^verbatim>\<open>=\<close>, and an unquoted value ends at white space. A tag cut off by the end of
  the markup is dropped.
\<close>

datatype scan_state = InText | InTag | BeforeValue | DoubleQuoted | SingleQuoted | Unquoted

definition is_space :: "char \<Rightarrow> bool" where
  "is_space c = (c = CHR '' '' \<or> c = CHR 0x09 \<or> c = CHR 0x0A \<or> c = CHR 0x0C \<or> c = CHR 0x0D)"

fun scan :: "scan_state \<Rightarrow> string \<Rightarrow> string \<Rightarrow> string list" where
  "scan st t [] = []"
| "scan InText t (c # cs) =
     (if c = CHR ''<'' then scan InTag [c] cs else scan InText t cs)"
| "scan InTag t (c # cs) =
     (if c = CHR ''>'' then t # scan InText [] cs
      else if c = CHR ''='' then scan BeforeValue (t @ [c]) cs
      else scan InTag (t @ [c]) cs)"
| "scan BeforeValue t (c # cs) =
     (if c = CHR ''>'' then t # scan InText [] cs
      else if c = CHR 0x22 then scan DoubleQuoted (t @ [c]) cs
      else if c = CHR 0x27 then scan SingleQuoted (t @ [c]) cs
      else if is_space c then scan BeforeValue (t @ [c]) cs
      else scan Unquoted (t @ [c]) cs)"
| "scan DoubleQuoted t (c # cs) =
     (if c = CHR 0x22 then scan InTag (t @ [c]) cs else scan DoubleQuoted (t @ [c]) cs)"
| "scan SingleQuoted t (c # cs) =
     (if c = CHR 0x27 then scan InTag (t @ [c]) cs else scan SingleQuoted (t @ [c]) cs)"
| "scan Unquoted t (c # cs) =
     (if c = CHR ''>'' then t # scan InText [] cs
      else if is_space c then scan InTag (t @ [c]) cs
      else scan Unquoted (t @ [c]) cs)"

definition tags :: "string \<Rightarrow> string list" where
  "tags s = scan InText [] s"

text \<open>
  The anchors are the tags that open an \<^verbatim>\<open>a\<close> element; an anchor is safe to open when it
  carries both \<^verbatim>\<open>target="_blank"\<close> and \<^verbatim>\<open>rel="noopener"\<close>.
\<close>

definition opens_anchor :: "string \<Rightarrow> bool" where
  "opens_anchor t =
     (case t of
        c1 # c2 # rest \<Rightarrow>
          c1 = CHR ''<'' \<and> (c2 = CHR ''a'' \<or> c2 = CHR ''A'') \<and>
          (case rest of [] \<Rightarrow> True | c3 # r \<Rightarrow> is_space c3 \<or> c3 = CHR ''/'')
      | _ \<Rightarrow> False)"

definition anchor_tags :: "string \<Rightarrow> string list" where
  "anchor_tags s = filter opens_anchor (tags s)"

fun contains :: "string \<Rightarrow> string \<Rightarrow> bool" where
  "contains p [] = (p = [])"
| "contains p (c # cs) = (take (length p) (c # cs) = p \<or> contains p cs)"

definition carries_noopener :: "string \<Rightarrow> bool" where
  \<open>carries_noopener t = (contains '' target="_blank"'' t \<and> contains '' rel="noopener"'' t)\<close>

text \<open>
  A value is safe as text when it has no \<^verbatim>\<open><\<close>, which would open a tag, and safe as the
  value of a double-quoted attribute when it has no double quote, which would end the value.
\<close>

definition text_safe :: "string \<Rightarrow> bool" where
  "text_safe s = list_all (\<lambda>c. c \<noteq> CHR ''<'') s"

definition href_safe :: "string \<Rightarrow> bool" where
  "href_safe s = list_all (\<lambda>c. c \<noteq> CHR 0x22) s"

definition safe_field :: "(string \<Rightarrow> bool) \<Rightarrow> json option \<Rightarrow> bool" where
  "safe_field ok v = (case v of None \<Rightarrow> True | Some (JStr s) \<Rightarrow> ok s | Some _ \<Rightarrow> False)"

text \<open>
  An item whose headline, summary and why, where present, are strings safe as text, and
  whose link, where present, is a string safe as an attribute value.
\<close>

definition safe_item :: "json \<Rightarrow> bool" where
  "safe_item item =
     (case item of
        JObj kvs \<Rightarrow>
          safe_field text_safe (own_property kvs ''headline'') \<and>
          safe_field text_safe (own_property kvs ''summary'') \<and>
          safe_field text_safe (own_property kvs ''why'') \<and>
          safe_field href_safe (own_property kvs ''link'')
      | _ \<Rightarrow> False)"

section \<open>Example pages and responses\<close>

definition example_page :: page where
  "example_page =
     [''sources-agg'' \<mapsto> showing ''<li>old</li>'',
      ''improvements-list'' \<mapsto> showing ''<p>old</p>'',
      ''news-list'' \<mapsto> showing ''<p>old</p>'',
      ''sources-list'' \<mapsto> showing ''<li>old</li>'']"

definition example_sources :: json where
  "example_sources =
     JObj [(''sources'', JArr [JObj [(''from'', JStr ''A''), (''url'', JStr ''http://x.test'')]])]"

definition example_feed :: json where
  "example_feed =
     JObj [(''items'', JArr [JObj [(''headline'', JStr ''H'')]]),
           (''sources'', JArr [JStr ''http://x.test''])]"

text \<open>Responses whose sequences hold two different entries each.\<close>

definition two_sources :: json where
  "two_sources =
     JObj [(''sources'',
       JArr [JObj [(''from'', JStr ''B''), (''url'', JStr ''http://b.test'')],
             JObj [(''from'', JStr ''A''), (''url'', JStr ''http://a.test'')]])]"

definition two_item_feed :: json where
  "two_item_feed =
     JObj [(''items'', JArr [JObj [(''headline'', JStr ''Second'')], JObj [(''headline'', JStr ''First'')]]),
           (''sources'', JArr [JStr ''http://b.test'', JStr ''http://a.test''])]"

text \<open>A feed whose second source cannot be converted to a string.\<close>

definition broken_feed :: json where
  "broken_feed =
     JObj [(''items'', JArr []),
           (''sources'', JArr [JStr ''http://x.test'', JObj [(''toString'', JNull)]])]"

definition ok_response :: "json \<Rightarrow> fetch_outcome" where
  "ok_response data = Resolved \<lparr>status = 200, json_body = Inr data\<rparr>"

text \<open>
  The page when the second source of \<open>broken_feed\<close> throws, in the improvements and in the
  news view: the list is cleared and the first source is rendered.
\<close>

definition improvements_page_at_failure :: page where
  \<open>improvements_page_at_failure =
     example_page(''improvements-list'' \<mapsto> \<lparr>html = [], children = []\<rparr>,
       ''sources-list'' \<mapsto>
         \<lparr>html = [],
          children = [li ''<a href="http://x.test" target="_blank" rel="noopener">http://x.test</a>'']\<rparr>)\<close>

definition news_page_at_failure :: page where
  \<open>news_page_at_failure =
     example_page(''news-list'' \<mapsto> \<lparr>html = [], children = []\<rparr>,
       ''sources-list'' \<mapsto>
         \<lparr>html = [],
          children = [li ''<a href="http://x.test" target="_blank" rel="noopener">http://x.test</a>'']\<rparr>)\<close>

text \<open>An item with every field present and empty.\<close>

definition empty_fields :: "(string \<times> json) list" where
  "empty_fields =
     [(''headline'', JStr []), (''summary'', JStr []), (''why'', JStr []), (''link'', JStr [])]"

section \<open>Steps on the page\<close>

lemma getElementById_present: "pg i \<noteq> None \<Longrightarrow> getElementById pg i = Some i"
  by (simp add: getElementById_def)

lemma getElementById_other: "i \<noteq> j \<Longrightarrow> getElementById (pg(i \<mapsto> c)) j = getElementById pg j"
  by (simp add: getElementById_def)

lemma set_innerHTML_present:
  "pg i \<noteq> None \<Longrightarrow> set_innerHTML (Some i) s pg = (None, pg(i \<mapsto> showing s))"
  by (auto simp: set_innerHTML_def showing_def)

text \<open>
  A callback that builds one element from a template and appends it: the loop appends the
  fragments of the entries before the first throw, and ends with that throw.
\<close>

lemma forEach_append:
  assumes cb: "\<And>x p. f x p =
      (case t x of Inl e \<Rightarrow> (Some e, p) | Inr h \<Rightarrow> appendChild (Some i) (mk h) p)"
  shows "pg i = Some c \<Longrightarrow>
    forEach xs f pg =
      (first_failure t xs, pg(i \<mapsto> c\<lparr>children := children c @ map mk (rendered t xs)\<rparr>))"
proof (induction xs arbitrary: pg c)
  case Nil
  then show ?case by (simp add: map_upd_triv)
next
  case (Cons x xs)
  show ?case
  proof (cases "t x")
    case (Inl e)
    with Cons.prems cb [of x pg] show ?thesis by (simp add: map_upd_triv)
  next
    case (Inr h)
    let ?c = "c\<lparr>children := children c @ [mk h]\<rparr>"
    have "forEach xs f (pg(i \<mapsto> ?c)) =
      (first_failure t xs,
       (pg(i \<mapsto> ?c))(i \<mapsto> ?c\<lparr>children := children ?c @ map mk (rendered t xs)\<rparr>))"
      by (rule Cons.IH) simp
    with Inr Cons.prems cb [of x pg] show ?thesis
      by (auto simp: appendChild_def fun_upd_def)
  qed
qed

lemma or_empty_forEach_append:
  assumes cb: "\<And>x p. f x p =
      (case t x of Inl e \<Rightarrow> (Some e, p) | Inr h \<Rightarrow> appendChild (Some i) (mk h) p)"
    and c: "pg i \<noteq> None"
  shows "or_empty_forEach v f pg =
      (if truthy v then
         (case v of
            Json (JArr xs) \<Rightarrow>
              (first_failure t xs,
               pg(i \<mapsto> (the (pg i))\<lparr>children := children (the (pg i)) @ map mk (rendered t xs)\<rparr>))
          | _ \<Rightarrow> (Some (TypeError ''forEach is not a function''), pg))
       else (None, pg))"
proof -
  from c obtain c0 where c0: "pg i = Some c0" by auto
  show ?thesis
    using forEach_append [where f = f and t = t and i = i and mk = mk and pg = pg and c = c0, OF cb c0] c0
    by (auto simp: or_empty_forEach_def map_upd_triv split: jsval.splits json.splits)
qed

lemma fill_region:
  assumes cb: "\<And>x p. f x p =
      (case t x of Inl e \<Rightarrow> (Some e, p) | Inr h \<Rightarrow> appendChild (Some i) (mk h) p)"
    and i: "pg i \<noteq> None"
  shows "(case get_prop data k of
            Inl e \<Rightarrow> (Some e, pg(i \<mapsto> showing []))
          | Inr v \<Rightarrow> or_empty_forEach v f (pg(i \<mapsto> showing []))) =
         (sequence_failure t data k, pg(i \<mapsto> region t mk data k))"
proof (cases "get_prop data k")
  case (Inl e)
  then show ?thesis
    by (simp add: sequence_failure_def region_def entries_def showing_def)
next
  case (Inr v)
  have "or_empty_forEach v f (pg(i \<mapsto> showing [])) =
      (sequence_failure t data k, pg(i \<mapsto> region t mk data k))"
    using Inr
    by (simp add: or_empty_forEach_append [where f = f and t = t and i = i and mk = mk, OF cb]
        sequence_failure_def region_def entries_def showing_def
        split: jsval.splits json.splits)
  with Inr show ?thesis by simp
qed

lemma sequence_failure_None:
  "sequence_failure t data k = None \<Longrightarrow> first_failure t (entries data k) = None"
  by (auto simp: sequence_failure_def entries_def split: sum.splits jsval.splits json.splits if_splits)

lemma first_failure_None_map:
  "first_failure t xs = None \<Longrightarrow> map t xs = map Inr (rendered t xs)"
  by (induction xs) (auto split: sum.splits)

lemma first_failure_None_length:
  "first_failure t xs = None \<Longrightarrow> length (rendered t xs) = length xs"
  by (induction xs) (auto split: sum.splits)

lemma loadSources_each_cb:
  "loadSources_each (Some i) x p =
     (case source_entry_html x of Inl e \<Rightarrow> (Some e, p) | Inr h \<Rightarrow> appendChild (Some i) (li h) p)"
  by (simp add: loadSources_each_def li_def createElement_def split: sum.splits)

lemma loadImprovements_item_cb:
  "loadImprovements_item (Some i) x p =
     (case improvement_item_html x of
        Inl e \<Rightarrow> (Some e, p)
      | Inr h \<Rightarrow> appendChild (Some i) (item_div h) p)"
  by (simp add: loadImprovements_item_def item_div_def createElement_def split: sum.splits)

lemma loadNews_item_cb:
  "loadNews_item (Some i) x p =
     (case news_item_html x of Inl e \<Rightarrow> (Some e, p) | Inr h \<Rightarrow> appendChild (Some i) (item_div h) p)"
  by (simp add: loadNews_item_def item_div_def createElement_def split: sum.splits)

lemma append_source_link_cb:
  "append_source_link (Some i) x p =
     (case source_link_html x of Inl e \<Rightarrow> (Some e, p) | Inr h \<Rightarrow> appendChild (Some i) (li h) p)"
  by (simp add: append_source_link_def li_def createElement_def split: sum.splits)

text \<open>The two regions of a feed, for a list container \<open>i\<close> that the page has.\<close>

lemma render_feed_eq:
  assumes cb: "\<And>x p. f x p =
      (case t x of Inl e \<Rightarrow> (Some e, p) | Inr h \<Rightarrow> appendChild (Some i) (item_div h) p)"
    and i: "pg i \<noteq> None" and ij: "i \<noteq> j"
  shows "render_feed f (Some i) (getElementById pg j) data pg =
     (case sequence_failure t data ''items'' of
        Some e \<Rightarrow> (Some e, pg(i \<mapsto> region t item_div data ''items''))
      | None \<Rightarrow>
         (case pg j of
            None \<Rightarrow> (Some (TypeError ''Cannot set properties of null, setting innerHTML''),
                      pg(i \<mapsto> region t item_div data ''items''))
          | Some c \<Rightarrow>
             (sequence_failure source_link_html data ''sources'',
              pg(i \<mapsto> region t item_div data ''items'',
                 j \<mapsto> region source_link_html li data ''sources''))))"
proof -
  have items: "(case get_prop data ''items'' of
            Inl e \<Rightarrow> (Some e, pg(i \<mapsto> showing []))
          | Inr v \<Rightarrow> or_empty_forEach v f (pg(i \<mapsto> showing []))) =
         (sequence_failure t data ''items'', pg(i \<mapsto> region t item_div data ''items''))"
    by (rule fill_region [where f = f and t = t and mk = item_div and i = i and pg = pg, OF cb i])
  have sources: "p j \<noteq> None \<Longrightarrow> (case get_prop data ''sources'' of
            Inl e \<Rightarrow> (Some e, p(j \<mapsto> showing []))
          | Inr v \<Rightarrow> or_empty_forEach v (append_source_link (Some j)) (p(j \<mapsto> showing []))) =
         (sequence_failure source_link_html data ''sources'',
          p(j \<mapsto> region source_link_html li data ''sources''))" for p
    by (rule fill_region [where f = "append_source_link (Some j)" and t = source_link_html and mk = li
          and i = j and pg = p, OF append_source_link_cb])
  have 1: "render_feed f (Some i) (getElementById pg j) data pg =
      (case (sequence_failure t data ''items'', pg(i \<mapsto> region t item_div data ''items'')) of
         (Some e, pg2) \<Rightarrow> (Some e, pg2)
       | (None, pg2) \<Rightarrow>
          (case set_innerHTML (getElementById pg j) [] pg2 of
             (Some e, pg3) \<Rightarrow> (Some e, pg3)
           | (None, pg3) \<Rightarrow>
              (case get_prop data ''sources'' of
                 Inl e \<Rightarrow> (Some e, pg3)
               | Inr w \<Rightarrow> or_empty_forEach w (append_source_link (getElementById pg j)) pg3)))"
    unfolding render_feed_def using i items [symmetric]
    by (simp add: set_innerHTML_present split: sum.splits)
  show ?thesis
  proof (cases "pg j")
    case None
    then show ?thesis
      unfolding 1 by (simp add: getElementById_def set_innerHTML_def split: option.splits)
  next
    case (Some c)
    then have j: "(pg(i \<mapsto> region t item_div data ''items'')) j \<noteq> None" by simp
    from Some have gj: "getElementById pg j = Some j" by (simp add: getElementById_def)
    show ?thesis
      unfolding gj 1 [unfolded gj]
      using Some ij sources [of "pg(i \<mapsto> region t item_div data ''items'')", OF j]
      by (simp add: set_innerHTML_present split: option.splits)
  qed
qed

section \<open>The loaders, step by step\<close>


lemma request_failure_cases:
  obtains e where "request_failure out = Some e"
  | res data where "out = Resolved res" "json_body res = Inr data" "request_failure out = None"
proof (cases out)
  case (Rejected e)
  then show ?thesis by (simp add: that(1) request_failure_def)
next
  case (Resolved res)
  then show ?thesis
    by (cases "json_body res") (simp_all add: that request_failure_def)
qed

lemma loadSources_attempt_failure:
  assumes "pg ''sources-agg'' \<noteq> None" "request_failure out = Some e"
  shows "loadSources_attempt out pg = (Some e, pg(''sources-agg'' \<mapsto> showing ''<li>Loading...</li>''))"
  using assms
  by (auto simp: loadSources_attempt_def loadSources_begin_def loadSources_try_def request_failure_def
      getElementById_present set_innerHTML_present split: fetch_outcome.splits sum.splits)

lemma loadSources_attempt_data:
  assumes i: "pg ''sources-agg'' \<noteq> None" and data: "json_body res = Inr data"
  shows "loadSources_attempt (Resolved res) pg =
    (sequence_failure source_entry_html data ''sources'',
     pg(''sources-agg'' \<mapsto> region source_entry_html li data ''sources''))"
proof -
  have "(case get_prop data ''sources'' of
            Inl e \<Rightarrow> (Some e, pg(''sources-agg'' \<mapsto> showing []))
          | Inr v \<Rightarrow> or_empty_forEach v (loadSources_each (Some ''sources-agg''))
                     (pg(''sources-agg'' \<mapsto> showing []))) =
         (sequence_failure source_entry_html data ''sources'',
          pg(''sources-agg'' \<mapsto> region source_entry_html li data ''sources''))"
    by (rule fill_region [where f = "loadSources_each (Some ''sources-agg'')" and t = source_entry_html
          and mk = li and i = "''sources-agg''" and pg = pg, OF loadSources_each_cb i])
  with i data show ?thesis
    by (simp add: loadSources_attempt_def loadSources_begin_def loadSources_try_def
        getElementById_present set_innerHTML_present)
qed

lemma loadSources_run_eq:
  assumes i: "pg ''sources-agg'' \<noteq> None"
  shows "loadSources_run out pg =
    (case loadSources_attempt out pg of
       (None, pg1) \<Rightarrow>
         Inr \<lparr>at_request = pg(''sources-agg'' \<mapsto> showing ''<li>Loading...</li>''), settled = pg1\<rparr>
     | (Some e, pg1) \<Rightarrow>
         Inr \<lparr>at_request = pg(''sources-agg'' \<mapsto> showing ''<li>Loading...</li>''),
              settled = pg1(''sources-agg'' \<mapsto>
                showing (''<li>Failed to load sources. '' @ describe e @ ''</li>''))\<rparr>)"
proof -
  have unfold: "loadSources_run out pg =
    (case loadSources_attempt out pg of
       (None, pg1) \<Rightarrow>
         Inr \<lparr>at_request = pg(''sources-agg'' \<mapsto> showing ''<li>Loading...</li>''), settled = pg1\<rparr>
     | (Some e, pg1) \<Rightarrow>
        (case set_innerHTML (Some ''sources-agg'')
                (''<li>Failed to load sources. '' @ describe e @ ''</li>'') pg1 of
           (Some e', pg2) \<Rightarrow> Inl e'
         | (None, pg2) \<Rightarrow>
             Inr \<lparr>at_request = pg(''sources-agg'' \<mapsto> showing ''<li>Loading...</li>''),
                  settled = pg2\<rparr>))"
    using i
    by (simp add: loadSources_run_def loadSources_attempt_def loadSources_begin_def Let_def
        getElementById_present set_innerHTML_present)
  show ?thesis
  proof (cases out rule: request_failure_cases)
    case (1 e)
    with i show ?thesis
      unfolding unfold by (simp add: loadSources_attempt_failure set_innerHTML_present)
  next
    case (2 res data)
    with i show ?thesis
      unfolding unfold
      by (simp add: loadSources_attempt_data set_innerHTML_present split: option.splits)
  qed
qed

lemma loadSources_finish:
  assumes i: "pg ''sources-agg'' \<noteq> None"
  shows "loadSources out pg =
    (case loadSources_attempt out pg of
       (None, pg1) \<Rightarrow> Inr pg1
     | (Some e, pg1) \<Rightarrow>
         Inr (pg1(''sources-agg'' \<mapsto>
           showing (''<li>Failed to load sources. '' @ describe e @ ''</li>''))))"
  by (simp add: loadSources_def loadSources_run_eq [where pg = pg and out = out, OF i] split: prod.splits option.splits)


lemma loadImprovements_attempt_failure:
  assumes "pg ''improvements-list'' \<noteq> None" "request_failure out = Some e"
  shows "loadImprovements_attempt out pg =
    (Some e, pg(''improvements-list'' \<mapsto> showing ''<p>Loading...</p>''))"
  using assms
  by (auto simp: loadImprovements_attempt_def loadImprovements_begin_def loadImprovements_try_def
      request_failure_def getElementById_present set_innerHTML_present
      split: fetch_outcome.splits sum.splits)

lemma loadImprovements_attempt_data:
  assumes i: "pg ''improvements-list'' \<noteq> None" and data: "json_body res = Inr data"
  shows "loadImprovements_attempt (Resolved res) pg =
    (case sequence_failure improvement_item_html data ''items'' of
       Some e \<Rightarrow>
         (Some e, pg(''improvements-list'' \<mapsto> region improvement_item_html item_div data ''items''))
     | None \<Rightarrow>
        (case pg ''sources-list'' of
           None \<Rightarrow>
             (Some (TypeError ''Cannot set properties of null, setting innerHTML''),
              pg(''improvements-list'' \<mapsto> region improvement_item_html item_div data ''items''))
         | Some c \<Rightarrow>
             (sequence_failure source_link_html data ''sources'',
              pg(''improvements-list'' \<mapsto> region improvement_item_html item_div data ''items'',
                 ''sources-list'' \<mapsto> region source_link_html li data ''sources''))))"
proof -
  let ?p = "pg(''improvements-list'' \<mapsto> showing ''<p>Loading...</p>'')"
  have h: "getElementById pg ''sources-list'' = getElementById ?p ''sources-list''"
    by (simp add: getElementById_other)
  have "render_feed (loadImprovements_item (Some ''improvements-list'')) (Some ''improvements-list'')
      (getElementById ?p ''sources-list'') data ?p =
     (case sequence_failure improvement_item_html data ''items'' of
        Some e \<Rightarrow> (Some e, ?p(''improvements-list'' \<mapsto> region improvement_item_html item_div data ''items''))
      | None \<Rightarrow>
         (case ?p ''sources-list'' of
            None \<Rightarrow> (Some (TypeError ''Cannot set properties of null, setting innerHTML''),
                      ?p(''improvements-list'' \<mapsto> region improvement_item_html item_div data ''items''))
          | Some c \<Rightarrow>
             (sequence_failure source_link_html data ''sources'',
              ?p(''improvements-list'' \<mapsto> region improvement_item_html item_div data ''items'',
                 ''sources-list'' \<mapsto> region source_link_html li data ''sources''))))"
    by (rule render_feed_eq [where f = "loadImprovements_item (Some ''improvements-list'')"
          and t = improvement_item_html and i = "''improvements-list''" and j = "''sources-list''"
          and pg = ?p, OF loadImprovements_item_cb]) simp_all
  then show ?thesis
    unfolding loadImprovements_attempt_def h
    using i data
    by (simp add: loadImprovements_begin_def loadImprovements_try_def
        getElementById_present set_innerHTML_present split: option.splits)
qed

lemma loadImprovements_run_eq:
  assumes i: "pg ''improvements-list'' \<noteq> None"
  shows "loadImprovements_run out pg =
    (case loadImprovements_attempt out pg of
       (None, pg1) \<Rightarrow>
         Inr \<lparr>at_request = pg(''improvements-list'' \<mapsto> showing ''<p>Loading...</p>''), settled = pg1\<rparr>
     | (Some e, pg1) \<Rightarrow>
         Inr \<lparr>at_request = pg(''improvements-list'' \<mapsto> showing ''<p>Loading...</p>''),
              settled = pg1(''improvements-list'' \<mapsto>
                showing (''<p>Failed to load improvements. '' @ describe e @ ''</p>''))\<rparr>)"
proof -
  have unfold: "loadImprovements_run out pg =
    (case loadImprovements_attempt out pg of
       (None, pg1) \<Rightarrow>
         Inr \<lparr>at_request = pg(''improvements-list'' \<mapsto> showing ''<p>Loading...</p>''), settled = pg1\<rparr>
     | (Some e, pg1) \<Rightarrow>
        (case set_innerHTML (Some ''improvements-list'')
                (''<p>Failed to load improvements. '' @ describe e @ ''</p>'') pg1 of
           (Some e', pg2) \<Rightarrow> Inl e'
         | (None, pg2) \<Rightarrow>
             Inr \<lparr>at_request = pg(''improvements-list'' \<mapsto> showing ''<p>Loading...</p>''),
                  settled = pg2\<rparr>))"
    using i
    by (simp add: loadImprovements_run_def loadImprovements_attempt_def loadImprovements_begin_def Let_def
        getElementById_present set_innerHTML_present)
  show ?thesis
  proof (cases out rule: request_failure_cases)
    case (1 e)
    with i show ?thesis
      unfolding unfold by (simp add: loadImprovements_attempt_failure set_innerHTML_present)
  next
    case (2 res data)
    with i show ?thesis
      unfolding unfold
      by (simp add: loadImprovements_attempt_data set_innerHTML_present split: option.splits)
  qed
qed

lemma loadImprovements_finish:
  assumes i: "pg ''improvements-list'' \<noteq> None"
  shows "loadImprovements out pg =
    (case loadImprovements_attempt out pg of
       (None, pg1) \<Rightarrow> Inr pg1
     | (Some e, pg1) \<Rightarrow>
         Inr (pg1(''improvements-list'' \<mapsto>
           showing (''<p>Failed to load improvements. '' @ describe e @ ''</p>''))))"
  by (simp add: loadImprovements_def loadImprovements_run_eq [where pg = pg and out = out, OF i] split: prod.splits option.splits)

lemma loadNews_attempt_failure:
  assumes "pg ''news-list'' \<noteq> None" "request_failure out = Some e"
  shows "loadNews_attempt out pg =
    (Some e, pg(''news-list'' \<mapsto> showing ''<p>Loading...</p>''))"
  using assms
  by (auto simp: loadNews_attempt_def loadNews_begin_def loadNews_try_def
      request_failure_def getElementById_present set_innerHTML_present
      split: fetch_outcome.splits sum.splits)

lemma loadNews_attempt_data:
  assumes i: "pg ''news-list'' \<noteq> None" and data: "json_body res = Inr data"
  shows "loadNews_attempt (Resolved res) pg =
    (case sequence_failure news_item_html data ''items'' of
       Some e \<Rightarrow>
         (Some e, pg(''news-list'' \<mapsto> region news_item_html item_div data ''items''))
     | None \<Rightarrow>
        (case pg ''sources-list'' of
           None \<Rightarrow>
             (Some (TypeError ''Cannot set properties of null, setting innerHTML''),
              pg(''news-list'' \<mapsto> region news_item_html item_div data ''items''))
         | Some c \<Rightarrow>
             (sequence_failure source_link_html data ''sources'',
              pg(''news-list'' \<mapsto> region news_item_html item_div data ''items'',
                 ''sources-list'' \<mapsto> region source_link_html li data ''sources''))))"
proof -
  let ?p = "pg(''news-list'' \<mapsto> showing ''<p>Loading...</p>'')"
  have h: "getElementById pg ''sources-list'' = getElementById ?p ''sources-list''"
    by (simp add: getElementById_other)
  have "render_feed (loadNews_item (Some ''news-list'')) (Some ''news-list'')
      (getElementById ?p ''sources-list'') data ?p =
     (case sequence_failure news_item_html data ''items'' of
        Some e \<Rightarrow> (Some e, ?p(''news-list'' \<mapsto> region news_item_html item_div data ''items''))
      | None \<Rightarrow>
         (case ?p ''sources-list'' of
            None \<Rightarrow> (Some (TypeError ''Cannot set properties of null, setting innerHTML''),
                      ?p(''news-list'' \<mapsto> region news_item_html item_div data ''items''))
          | Some c \<Rightarrow>
             (sequence_failure source_link_html data ''sources'',
              ?p(''news-list'' \<mapsto> region news_item_html item_div data ''items'',
                 ''sources-list'' \<mapsto> region source_link_html li data ''sources''))))"
    by (rule render_feed_eq [where f = "loadNews_item (Some ''news-list'')"
          and t = news_item_html and i = "''news-list''" and j = "''sources-list''"
          and pg = ?p, OF loadNews_item_cb]) simp_all
  then show ?thesis
    unfolding loadNews_attempt_def h
    using i data
    by (simp add: loadNews_begin_def loadNews_try_def
        getElementById_present set_innerHTML_present split: option.splits)
qed

lemma loadNews_run_eq:
  assumes i: "pg ''news-list'' \<noteq> None"
  shows "loadNews_run out pg =
    (case loadNews_attempt out pg of
       (None, pg1) \<Rightarrow>
         Inr \<lparr>at_request = pg(''news-list'' \<mapsto> showing ''<p>Loading...</p>''), settled = pg1\<rparr>
     | (Some e, pg1) \<Rightarrow>
         Inr \<lparr>at_request = pg(''news-list'' \<mapsto> showing ''<p>Loading...</p>''),
              settled = pg1(''news-list'' \<mapsto>
                showing (''<p>Failed to load news. '' @ describe e @ ''</p>''))\<rparr>)"
proof -
  have unfold: "loadNews_run out pg =
    (case loadNews_attempt out pg of
       (None, pg1) \<Rightarrow>
         Inr \<lparr>at_request = pg(''news-list'' \<mapsto> showing ''<p>Loading...</p>''), settled = pg1\<rparr>
     | (Some e, pg1) \<Rightarrow>
        (case set_innerHTML (Some ''news-list'')
                (''<p>Failed to load news. '' @ describe e @ ''</p>'') pg1 of
           (Some e', pg2) \<Rightarrow> Inl e'
         | (None, pg2) \<Rightarrow>
             Inr \<lparr>at_request = pg(''news-list'' \<mapsto> showing ''<p>Loading...</p>''),
                  settled = pg2\<rparr>))"
    using i
    by (simp add: loadNews_run_def loadNews_attempt_def loadNews_begin_def Let_def
        getElementById_present set_innerHTML_present)
  show ?thesis
  proof (cases out rule: request_failure_cases)
    case (1 e)
    with i show ?thesis
      unfolding unfold by (simp add: loadNews_attempt_failure set_innerHTML_present)
  next
    case (2 res data)
    with i show ?thesis
      unfolding unfold
      by (simp add: loadNews_attempt_data set_innerHTML_present split: option.splits)
  qed
qed

lemma loadNews_finish:
  assumes i: "pg ''news-list'' \<noteq> None"
  shows "loadNews out pg =
    (case loadNews_attempt out pg of
       (None, pg1) \<Rightarrow> Inr pg1
     | (Some e, pg1) \<Rightarrow>
         Inr (pg1(''news-list'' \<mapsto>
           showing (''<p>Failed to load news. '' @ describe e @ ''</p>''))))"
  by (simp add: loadNews_def loadNews_run_eq [where pg = pg and out = out, OF i] split: prod.splits option.splits)

section \<open>What a loader leaves on the page\<close>

lemma full_render_region:
  assumes "sequence_failure t data k = None" and mk: "\<And>h. innerHTML (mk h) = h"
  shows "full_render t mk (entries data k) (region t mk data k)"
proof -
  from assms(1) have ff: "first_failure t (entries data k) = None"
    by (rule sequence_failure_None)
  show ?thesis
    by (simp add: full_render_def region_def first_failure_None_length [OF ff]
        first_failure_None_map [OF ff] mk comp_def)
qed

lemma innerHTML_li: "innerHTML (li h) = h"
  by (simp add: li_def)

lemma innerHTML_item_div: "innerHTML (item_div h) = h"
  by (simp add: item_div_def)

lemma not_full_render_showing: "s \<noteq> [] \<Longrightarrow> \<not> full_render t mk xs (showing s)"
  by (simp add: full_render_def showing_def)

lemma region_not_showing: "s \<noteq> [] \<Longrightarrow> region t mk data k \<noteq> showing s"
  by (auto simp: region_def showing_def)

lemma showing_eq: "showing a = showing b \<longleftrightarrow> a = b"
  by (simp add: showing_def)

lemma region_html: "html (region t mk data k) = []"
  by (simp add: region_def)

lemma showing_html: "html (showing s) = s"
  by (simp add: showing_def)

text \<open>
  On a page that has its list container, each loader resolves; the container then holds
  either the error message or the full render, and never both.
\<close>

lemma sources_settle:
  assumes i: "pg ''sources-agg'' \<noteq> None"
  shows "\<exists>pg' c. loadSources out pg = Inr pg' \<and> pg' ''sources-agg'' = Some c \<and>
          c \<noteq> showing ''<li>Loading...</li>'' \<and>
          ((\<exists>e. c = showing (''<li>Failed to load sources. '' @ describe e @ ''</li>'')) \<noteq>
           (\<exists>res data. out = Resolved res \<and> json_body res = Inr data \<and>
              full_render source_entry_html li (entries data ''sources'') c))"
proof -
  have failed: ?thesis
    if "loadSources_attempt out pg = (Some e, pg1)" for e pg1
  proof -
    let ?c = "showing (''<li>Failed to load sources. '' @ describe e @ ''</li>'')"
    have "loadSources out pg = Inr (pg1(''sources-agg'' \<mapsto> ?c))"
      using i that by (simp add: loadSources_finish)
    moreover have "?c \<noteq> showing ''<li>Loading...</li>''" by (simp add: showing_eq)
    moreover have "\<not> full_render t mk xs ?c" for t mk xs
      by (rule not_full_render_showing) simp
    ultimately show ?thesis by fastforce
  qed
  show ?thesis
  proof (cases out rule: request_failure_cases)
    case (1 e)
    with i show ?thesis by (intro failed) (simp add: loadSources_attempt_failure)
  next
    case (2 res data)
    show ?thesis
    proof (cases "sequence_failure source_entry_html data ''sources''")
      case (Some e)
      with i 2 show ?thesis by (intro failed) (simp add: loadSources_attempt_data)
    next
      case None
      let ?c = "region source_entry_html li data ''sources''"
      have "loadSources out pg = Inr (pg(''sources-agg'' \<mapsto> ?c))"
        using i 2 None by (simp add: loadSources_finish loadSources_attempt_data)
      moreover have "?c \<noteq> showing s" if "s \<noteq> []" for s
        using that by (rule region_not_showing)
      moreover have "full_render source_entry_html li (entries data ''sources'') ?c"
        using None by (rule full_render_region) (rule innerHTML_li)
      ultimately show ?thesis using 2 by fastforce
    qed
  qed
qed


lemma improvements_settle:
  assumes i: "pg ''improvements-list'' \<noteq> None"
  shows "\<exists>pg' c. loadImprovements out pg = Inr pg' \<and> pg' ''improvements-list'' = Some c \<and>
          c \<noteq> showing ''<p>Loading...</p>'' \<and>
          ((\<exists>e. c = showing (''<p>Failed to load improvements. '' @ describe e @ ''</p>'')) \<noteq>
           (\<exists>res data s. out = Resolved res \<and> json_body res = Inr data \<and>
              full_render improvement_item_html item_div (entries data ''items'') c \<and>
              pg' ''sources-list'' = Some s \<and>
              full_render source_link_html li (entries data ''sources'') s))"
proof -
  have failed: ?thesis
    if "loadImprovements_attempt out pg = (Some e, pg1)" for e pg1
  proof -
    let ?c = "showing (''<p>Failed to load improvements. '' @ describe e @ ''</p>'')"
    have "loadImprovements out pg = Inr (pg1(''improvements-list'' \<mapsto> ?c))"
      using i that by (simp add: loadImprovements_finish)
    moreover have "?c \<noteq> showing ''<p>Loading...</p>''" by (simp add: showing_eq)
    moreover have "\<not> full_render t mk xs ?c" for t mk xs
      by (rule not_full_render_showing) simp
    ultimately show ?thesis by fastforce
  qed
  show ?thesis
  proof (cases out rule: request_failure_cases)
    case (1 e)
    with i show ?thesis by (intro failed) (simp add: loadImprovements_attempt_failure)
  next
    case (2 res data)
    note att = loadImprovements_attempt_data [where pg = pg and res = res, OF i 2(2), folded 2(1)]
    show ?thesis
    proof (cases "sequence_failure improvement_item_html data ''items''")
      case (Some e)
      then show ?thesis by (intro failed) (simp add: att)
    next
      case items: None
      show ?thesis
      proof (cases "pg ''sources-list''")
        case None
        with items show ?thesis by (intro failed) (simp add: att)
      next
        case j: (Some cj)
        show ?thesis
        proof (cases "sequence_failure source_link_html data ''sources''")
          case (Some e)
          with items j show ?thesis by (intro failed) (simp add: att)
        next
          case None
          let ?c = "region improvement_item_html item_div data ''items''"
          let ?s = "region source_link_html li data ''sources''"
          have "loadImprovements out pg =
              Inr (pg(''improvements-list'' \<mapsto> ?c, ''sources-list'' \<mapsto> ?s))"
            using i items j None by (simp add: loadImprovements_finish att)
          moreover have "?c \<noteq> showing s" if "s \<noteq> []" for s
            using that by (rule region_not_showing)
          moreover have "full_render improvement_item_html item_div (entries data ''items'') ?c"
            using items by (rule full_render_region) (rule innerHTML_item_div)
          moreover have "full_render source_link_html li (entries data ''sources'') ?s"
            using None by (rule full_render_region) (rule innerHTML_li)
          ultimately show ?thesis using 2 by fastforce
        qed
      qed
    qed
  qed
qed

lemma news_settle:
  assumes i: "pg ''news-list'' \<noteq> None"
  shows "\<exists>pg' c. loadNews out pg = Inr pg' \<and> pg' ''news-list'' = Some c \<and>
          c \<noteq> showing ''<p>Loading...</p>'' \<and>
          ((\<exists>e. c = showing (''<p>Failed to load news. '' @ describe e @ ''</p>'')) \<noteq>
           (\<exists>res data s. out = Resolved res \<and> json_body res = Inr data \<and>
              full_render news_item_html item_div (entries data ''items'') c \<and>
              pg' ''sources-list'' = Some s \<and>
              full_render source_link_html li (entries data ''sources'') s))"
proof -
  have failed: ?thesis
    if "loadNews_attempt out pg = (Some e, pg1)" for e pg1
  proof -
    let ?c = "showing (''<p>Failed to load news. '' @ describe e @ ''</p>'')"
    have "loadNews out pg = Inr (pg1(''news-list'' \<mapsto> ?c))"
      using i that by (simp add: loadNews_finish)
    moreover have "?c \<noteq> showing ''<p>Loading...</p>''" by (simp add: showing_eq)
    moreover have "\<not> full_render t mk xs ?c" for t mk xs
      by (rule not_full_render_showing) simp
    ultimately show ?thesis by fastforce
  qed
  show ?thesis
  proof (cases out rule: request_failure_cases)
    case (1 e)
    with i show ?thesis by (intro failed) (simp add: loadNews_attempt_failure)
  next
    case (2 res data)
    note att = loadNews_attempt_data [where pg = pg and res = res, OF i 2(2), folded 2(1)]
    show ?thesis
    proof (cases "sequence_failure news_item_html data ''items''")
      case (Some e)
      then show ?thesis by (intro failed) (simp add: att)
    next
      case items: None
      show ?thesis
      proof (cases "pg ''sources-list''")
        case None
        with items show ?thesis by (intro failed) (simp add: att)
      next
        case j: (Some cj)
        show ?thesis
        proof (cases "sequence_failure source_link_html data ''sources''")
          case (Some e)
          with items j show ?thesis by (intro failed) (simp add: att)
        next
          case None
          let ?c = "region news_item_html item_div data ''items''"
          let ?s = "region source_link_html li data ''sources''"
          have "loadNews out pg =
              Inr (pg(''news-list'' \<mapsto> ?c, ''sources-list'' \<mapsto> ?s))"
            using i items j None by (simp add: loadNews_finish att)
          moreover have "?c \<noteq> showing s" if "s \<noteq> []" for s
            using that by (rule region_not_showing)
          moreover have "full_render news_item_html item_div (entries data ''items'') ?c"
            using items by (rule full_render_region) (rule innerHTML_item_div)
          moreover have "full_render source_link_html li (entries data ''sources'') ?s"
            using None by (rule full_render_region) (rule innerHTML_li)
          ultimately show ?thesis using 2 by fastforce
        qed
      qed
    qed
  qed
qed

text \<open>When the \<^verbatim>\<open>catch\<close> clause runs, only the list container is written.\<close>

lemma improvements_sources_on_failure:
  assumes i: "pg ''improvements-list'' \<noteq> None"
    and att: "loadImprovements_attempt out pg = (Some e, pg1)"
  shows "loadImprovements out pg =
           Inr (pg1(''improvements-list'' \<mapsto>
             showing (''<p>Failed to load improvements. '' @ describe e @ ''</p>''))) \<and>
         (pg1 ''sources-list'' = pg ''sources-list'' \<or>
          (\<exists>res data. out = Resolved res \<and> json_body res = Inr data \<and>
             pg1 ''sources-list'' = Some (region source_link_html li data ''sources'')))"
proof (cases out rule: request_failure_cases)
  case (1 e')
  with i att show ?thesis
    by (auto simp: loadImprovements_finish loadImprovements_attempt_failure)
next
  case (2 res data)
  with i att show ?thesis
    by (auto simp: loadImprovements_finish
        loadImprovements_attempt_data [where pg = pg and res = res and data = data]
        split: option.splits)
qed

lemma news_sources_on_failure:
  assumes i: "pg ''news-list'' \<noteq> None"
    and att: "loadNews_attempt out pg = (Some e, pg1)"
  shows "loadNews out pg =
           Inr (pg1(''news-list'' \<mapsto>
             showing (''<p>Failed to load news. '' @ describe e @ ''</p>''))) \<and>
         (pg1 ''sources-list'' = pg ''sources-list'' \<or>
          (\<exists>res data. out = Resolved res \<and> json_body res = Inr data \<and>
             pg1 ''sources-list'' = Some (region source_link_html li data ''sources'')))"
proof (cases out rule: request_failure_cases)
  case (1 e')
  with i att show ?thesis
    by (auto simp: loadNews_finish loadNews_attempt_failure)
next
  case (2 res data)
  with i att show ?thesis
    by (auto simp: loadNews_finish
        loadNews_attempt_data [where pg = pg and res = res and data = data]
        split: option.splits)
qed

text \<open>The status of the response is never read.\<close>

lemma try_status_unread:
  "loadSources_try h (Resolved (res\<lparr>status := n\<rparr>)) p = loadSources_try h (Resolved res) p"
  "loadImprovements_try h h' (Resolved (res\<lparr>status := n\<rparr>)) p = loadImprovements_try h h' (Resolved res) p"
  "loadNews_try h h' (Resolved (res\<lparr>status := n\<rparr>)) p = loadNews_try h h' (Resolved res) p"
  by (simp_all add: loadSources_try_def loadImprovements_try_def loadNews_try_def)

lemma status_unread:
  "loadSources (Resolved (res\<lparr>status := n\<rparr>)) pg = loadSources (Resolved res) pg"
  "loadImprovements (Resolved (res\<lparr>status := n\<rparr>)) pg = loadImprovements (Resolved res) pg"
  "loadNews (Resolved (res\<lparr>status := n\<rparr>)) pg = loadNews (Resolved res) pg"
  unfolding loadSources_def loadImprovements_def loadNews_def
    loadSources_run_def loadImprovements_run_def loadNews_run_def try_status_unread
  by (rule refl)+

text \<open>The sources container is written only once a response has been parsed.\<close>

lemma improvements_attempt_sources:
  assumes i: "pg ''improvements-list'' \<noteq> None"
  shows "snd (loadImprovements_attempt out pg) ''sources-list'' = pg ''sources-list'' \<or>
    (\<exists>res data. out = Resolved res \<and> json_body res = Inr data \<and>
       snd (loadImprovements_attempt out pg) ''sources-list'' =
         Some (region source_link_html li data ''sources''))"
proof (cases out rule: request_failure_cases)
  case (1 e)
  with i show ?thesis by (simp add: loadImprovements_attempt_failure)
next
  case (2 res data)
  with i show ?thesis
    by (auto simp: loadImprovements_attempt_data [where pg = pg and res = res and data = data]
        split: option.splits)
qed

lemma improvements_run_cases:
  assumes i: "pg ''improvements-list'' \<noteq> None"
  shows "\<exists>pg'. loadImprovements_run out pg =
           Inr \<lparr>at_request = pg(''improvements-list'' \<mapsto> showing ''<p>Loading...</p>''),
                settled = pg'\<rparr> \<and>
         loadImprovements out pg = Inr pg' \<and>
         (pg' ''sources-list'' = pg ''sources-list'' \<or>
          (\<exists>res data. out = Resolved res \<and> json_body res = Inr data \<and>
             pg' ''sources-list'' = Some (region source_link_html li data ''sources'')))"
proof (cases "loadImprovements_attempt out pg")
  case (Pair r pg1)
  with improvements_attempt_sources [where pg = pg and out = out, OF i]
  have s: "pg1 ''sources-list'' = pg ''sources-list'' \<or>
    (\<exists>res data. out = Resolved res \<and> json_body res = Inr data \<and>
       pg1 ''sources-list'' = Some (region source_link_html li data ''sources''))"
    by simp
  show ?thesis
  proof (cases r)
    case None
    with Pair s show ?thesis
      by (simp add: loadImprovements_def loadImprovements_run_eq [where pg = pg and out = out, OF i])
  next
    case (Some e)
    with Pair s show ?thesis
      by (simp add: loadImprovements_def loadImprovements_run_eq [where pg = pg and out = out, OF i])
  qed
qed
lemma news_attempt_sources:
  assumes i: "pg ''news-list'' \<noteq> None"
  shows "snd (loadNews_attempt out pg) ''sources-list'' = pg ''sources-list'' \<or>
    (\<exists>res data. out = Resolved res \<and> json_body res = Inr data \<and>
       snd (loadNews_attempt out pg) ''sources-list'' =
         Some (region source_link_html li data ''sources''))"
proof (cases out rule: request_failure_cases)
  case (1 e)
  with i show ?thesis by (simp add: loadNews_attempt_failure)
next
  case (2 res data)
  with i show ?thesis
    by (auto simp: loadNews_attempt_data [where pg = pg and res = res and data = data]
        split: option.splits)
qed

lemma news_run_cases:
  assumes i: "pg ''news-list'' \<noteq> None"
  shows "\<exists>pg'. loadNews_run out pg =
           Inr \<lparr>at_request = pg(''news-list'' \<mapsto> showing ''<p>Loading...</p>''),
                settled = pg'\<rparr> \<and>
         loadNews out pg = Inr pg' \<and>
         (pg' ''sources-list'' = pg ''sources-list'' \<or>
          (\<exists>res data. out = Resolved res \<and> json_body res = Inr data \<and>
             pg' ''sources-list'' = Some (region source_link_html li data ''sources'')))"
proof (cases "loadNews_attempt out pg")
  case (Pair r pg1)
  with news_attempt_sources [where pg = pg and out = out, OF i]
  have s: "pg1 ''sources-list'' = pg ''sources-list'' \<or>
    (\<exists>res data. out = Resolved res \<and> json_body res = Inr data \<and>
       pg1 ''sources-list'' = Some (region source_link_html li data ''sources''))"
    by simp
  show ?thesis
  proof (cases r)
    case None
    with Pair s show ?thesis
      by (simp add: loadNews_def loadNews_run_eq [where pg = pg and out = out, OF i])
  next
    case (Some e)
    with Pair s show ?thesis
      by (simp add: loadNews_def loadNews_run_eq [where pg = pg and out = out, OF i])
  qed
qed

lemma sources_run_cases:
  assumes i: "pg ''sources-agg'' \<noteq> None"
  shows "\<exists>pg'. loadSources_run out pg =
           Inr \<lparr>at_request = pg(''sources-agg'' \<mapsto> showing ''<li>Loading...</li>''),
                settled = pg'\<rparr> \<and>
         loadSources out pg = Inr pg'"
  by (cases "loadSources_attempt out pg"; cases "fst (loadSources_attempt out pg)")
     (simp_all add: loadSources_def loadSources_run_eq [where pg = pg and out = out, OF i])

section \<open>Responses of the documented shape\<close>

lemma own_property_Nil: "own_property [] k = None"
  by (simp add: own_property_def)

lemma interp_or_obj:
  "interp_or (JObj kvs) k d =
     (case own_property kvs k of
        None \<Rightarrow> Inr d
      | Some v \<Rightarrow> if v = JNull then Inr d else to_string v)"
  by (cases "own_property kvs k"; cases "the (own_property kvs k)")
     (simp_all add: interp_or_def bind_def)

lemma interp_obj:
  "interp (JObj kvs) k =
     (case own_property kvs k of None \<Rightarrow> Inr ''undefined'' | Some v \<Rightarrow> to_string v)"
  by (simp add: interp_def bind_def split: option.splits)

lemma why_block_obj:
  "why_block (JObj kvs) =
     (case own_property kvs ''why'' of
        None \<Rightarrow> Inr []
      | Some v \<Rightarrow>
          if truthy (Json v)
          then bind (to_string v) (\<lambda>w. Inr (''<p><strong>Why it matters:</strong> '' @ w @ ''</p>''))
          else Inr [])"
  by (simp add: why_block_def interp_obj bind_def split: option.splits)

lemma link_block_obj:
  \<open>link_block label (JObj kvs) =
     (case own_property kvs ''link'' of
        None \<Rightarrow> Inr []
      | Some v \<Rightarrow>
          if truthy (Json v)
          then bind (to_string v) (\<lambda>l.
                 Inr (''<p class="link"><a href="'' @ l @
                      ''" target="_blank" rel="noopener">'' @ label @ ''</a></p>''))
          else Inr [])\<close>
  by (simp add: link_block_def interp_obj bind_def split: option.splits)

lemma optional_string_cases:
  assumes "optional_string v"
  obtains "v = None" | s where "v = Some (JStr s)"
  using assms by (cases v; cases "the v") (auto simp: optional_string_def)

lemma valid_item_renders:
  assumes "valid_item x"
  shows "\<exists>h. improvement_item_html x = Inr h" "\<exists>h. news_item_html x = Inr h"
proof -
  from assms obtain kvs where x: "x = JObj kvs"
    and f: "optional_string (own_property kvs ''headline'')" "optional_string (own_property kvs ''summary'')"
      "optional_string (own_property kvs ''why'')" "optional_string (own_property kvs ''link'')"
    by (cases x) (auto simp: valid_item_def)
  from f(1) obtain h where h: "interp_or (JObj kvs) ''headline'' ''Untitled'' = Inr h"
    by (rule optional_string_cases) (simp_all add: interp_or_obj)
  from f(2) obtain s where s: "interp_or (JObj kvs) ''summary'' [] = Inr s"
    by (rule optional_string_cases) (simp_all add: interp_or_obj)
  have "\<exists>w. why_block (JObj kvs) = Inr w"
    using f(3) by (rule optional_string_cases) (simp_all add: why_block_obj bind_def)
  then obtain w where w: "why_block (JObj kvs) = Inr w" ..
  have "\<exists>l. link_block lab (JObj kvs) = Inr l" for lab
    using f(4) by (rule optional_string_cases) (simp_all add: link_block_obj bind_def)
  then obtain l a where l: "link_block ''Read documentation'' (JObj kvs) = Inr l"
    and a: "link_block ''Open article'' (JObj kvs) = Inr a"
    by blast
  show "\<exists>h. improvement_item_html x = Inr h"
    by (simp add: x improvement_item_html_def h s w l bind_def)
  show "\<exists>h. news_item_html x = Inr h"
    by (simp add: x news_item_html_def h s a bind_def)
qed

lemma is_string_iff: "is_string v \<longleftrightarrow> (\<exists>s. v = JStr s)"
  by (cases v) simp_all

lemma valid_source_entry_renders:
  assumes "valid_source_entry x"
  shows "\<exists>h. source_entry_html x = Inr h"
proof -
  from assms obtain kvs a u where "x = JObj kvs"
    "own_property kvs ''from'' = Some (JStr a)" "own_property kvs ''url'' = Some (JStr u)"
    by (cases x) (auto simp: valid_source_entry_def required_string_def is_string_iff
        split: option.splits)
  then show ?thesis
    by (simp add: source_entry_html_def interp_obj bind_def)
qed

lemma string_link_renders:
  assumes "is_string x"
  shows "\<exists>h. source_link_html x = Inr h"
  using assms by (cases x) (simp_all add: source_link_html_def bind_def)

lemma first_failure_all_render:
  assumes "list_all ok xs" and "\<And>x. ok x \<Longrightarrow> \<exists>h. t x = Inr h"
  shows "first_failure t xs = None"
  using assms(1)
proof (induction xs)
  case Nil
  show ?case by simp
next
  case (Cons x xs)
  then have "ok x" by simp
  then obtain h where "t x = Inr h" using assms(2) by blast
  with Cons show ?case by simp
qed

lemma sequence_failure_valid:
  assumes "optional_array ok (own_property kvs k)" and "\<And>x. ok x \<Longrightarrow> \<exists>h. t x = Inr h"
  shows "sequence_failure t (JObj kvs) k = None"
proof (cases "own_property kvs k")
  case None
  then show ?thesis by (simp add: sequence_failure_def)
next
  case (Some v)
  with assms(1) obtain xs where "v = JArr xs" "list_all ok xs"
    by (cases v) (auto simp: optional_array_def)
  with Some assms(2) show ?thesis
    by (simp add: sequence_failure_def first_failure_all_render [where ok = ok])
qed

lemma valid_feed_no_failure:
  assumes "valid_feed_response data"
  shows "sequence_failure improvement_item_html data ''items'' = None"
    "sequence_failure news_item_html data ''items'' = None"
    "sequence_failure source_link_html data ''sources'' = None"
proof -
  from assms obtain kvs where d: "data = JObj kvs"
    and i: "optional_array valid_item (own_property kvs ''items'')"
    and s: "optional_array is_string (own_property kvs ''sources'')"
    by (cases data) (auto simp: valid_feed_response_def)
  show "sequence_failure improvement_item_html data ''items'' = None"
    unfolding d using i by (rule sequence_failure_valid) (rule valid_item_renders)
  show "sequence_failure news_item_html data ''items'' = None"
    unfolding d using i by (rule sequence_failure_valid) (rule valid_item_renders)
  show "sequence_failure source_link_html data ''sources'' = None"
    unfolding d using s by (rule sequence_failure_valid) (rule string_link_renders)
qed

lemma valid_sources_no_failure:
  assumes "valid_sources_response data"
  shows "sequence_failure source_entry_html data ''sources'' = None"
proof -
  from assms obtain kvs where d: "data = JObj kvs"
    and s: "optional_array valid_source_entry (own_property kvs ''sources'')"
    by (cases data) (auto simp: valid_sources_response_def)
  show ?thesis
    unfolding d using s by (rule sequence_failure_valid) (rule valid_source_entry_renders)
qed

lemma full_render_children:
  assumes "full_render t mk xs c" "map t xs = map Inr fs"
  shows "c = \<lparr>html = [], children = map mk fs\<rparr>"
proof -
  note f = assms(1) [unfolded full_render_def]
  note h = f [THEN conjunct1]
  note a = f [THEN conjunct2, THEN conjunct2, THEN conjunct1]
  note b = f [THEN conjunct2, THEN conjunct2, THEN conjunct2]
  have "map (Inr :: string \<Rightarrow> js_error + string) fs = map Inr (map innerHTML (children c))"
    unfolding assms(2) [symmetric] a by (simp add: comp_def)
  then have fs: "fs = map innerHTML (children c)"
    by (simp only: inj_map_eq_map [OF inj_Inr])
  have m: "map mk fs = map (\<lambda>el. mk (innerHTML el)) (children c)"
    unfolding fs by (simp add: comp_def)
  have "children c = map mk fs"
    using b m [symmetric] by (rule trans)
  with h show ?thesis by (cases c) simp
qed

lemma region_absent:
  "own_property kvs k = None \<Longrightarrow> region t mk (JObj kvs) k = \<lparr>html = [], children = []\<rparr>"
  by (simp add: region_def entries_def)

lemma sequence_failure_absent:
  "own_property kvs k = None \<Longrightarrow> sequence_failure t (JObj kvs) k = None"
  by (simp add: sequence_failure_def)

section \<open>Fields of an item\<close>

lemma map_of_without:
  "map_of (filter (\<lambda>kv. fst kv \<noteq> k) xs) k' = (if k' = k then None else map_of xs k')"
  by (induction xs) auto

lemma own_property_without:
  "own_property (without k kvs) k' = (if k' = k then None else own_property kvs k')"
  by (simp add: own_property_def without_def rev_filter map_of_without)

lemma falsy_why:
  assumes "own_property kvs ''why'' = Some v" "\<not> truthy (Json v)"
  shows "why_block (JObj kvs) = Inr []"
    "improvement_item_html (JObj kvs) = improvement_item_html (JObj (without ''why'' kvs))"
  using assms
  by (simp_all add: improvement_item_html_def why_block_obj link_block_obj interp_or_obj
      own_property_without)

lemma falsy_link:
  assumes "own_property kvs ''link'' = Some v" "\<not> truthy (Json v)"
  shows "link_block label (JObj kvs) = Inr []"
    "improvement_item_html (JObj kvs) = improvement_item_html (JObj (without ''link'' kvs))"
    "news_item_html (JObj kvs) = news_item_html (JObj (without ''link'' kvs))"
  using assms
  by (simp_all add: improvement_item_html_def news_item_html_def why_block_obj link_block_obj
      interp_or_obj own_property_without)

text \<open>The parts of the fragment of an item whose fields are strings where present.\<close>

lemma item_layout:
  assumes "valid_item (JObj kvs)"
  shows "\<exists>h s w l a.
     interp_or (JObj kvs) ''headline'' ''Untitled'' = Inr h \<and>
     interp_or (JObj kvs) ''summary'' [] = Inr s \<and>
     why_block (JObj kvs) = Inr w \<and>
     link_block ''Read documentation'' (JObj kvs) = Inr l \<and>
     link_block ''Open article'' (JObj kvs) = Inr a \<and>
     improvement_item_html (JObj kvs) =
       Inr (''\<newline>        <h3>'' @ h @ ''</h3>\<newline>        <p>'' @ s @ ''</p>\<newline>        '' @ w @
            ''\<newline>        '' @ l @ ''\<newline>      '') \<and>
     news_item_html (JObj kvs) =
       Inr (''\<newline>        <h3>'' @ h @ ''</h3>\<newline>        <p>'' @ s @ ''</p>\<newline>        '' @ a @
            ''\<newline>      '')"
proof -
  from assms have
    f: "optional_string (own_property kvs ''headline'')" "optional_string (own_property kvs ''summary'')"
      "optional_string (own_property kvs ''why'')" "optional_string (own_property kvs ''link'')"
    by (auto simp: valid_item_def)
  have "\<exists>h. interp_or (JObj kvs) ''headline'' ''Untitled'' = Inr h"
    using f(1) by (rule optional_string_cases) (simp_all add: interp_or_obj)
  then obtain h where h: "interp_or (JObj kvs) ''headline'' ''Untitled'' = Inr h" ..
  have "\<exists>s. interp_or (JObj kvs) ''summary'' [] = Inr s"
    using f(2) by (rule optional_string_cases) (simp_all add: interp_or_obj)
  then obtain s where s: "interp_or (JObj kvs) ''summary'' [] = Inr s" ..
  have "\<exists>w. why_block (JObj kvs) = Inr w"
    using f(3) by (rule optional_string_cases) (simp_all add: why_block_obj bind_def)
  then obtain w where w: "why_block (JObj kvs) = Inr w" ..
  have link: "\<exists>l. link_block lab (JObj kvs) = Inr l" for lab
    using f(4) by (rule optional_string_cases) (simp_all add: link_block_obj bind_def)
  from link [of "''Read documentation''"] obtain l where
    l: "link_block ''Read documentation'' (JObj kvs) = Inr l" ..
  from link [of "''Open article''"] obtain a where
    a: "link_block ''Open article'' (JObj kvs) = Inr a" ..
  from h s w l a show ?thesis
    by (simp add: improvement_item_html_def news_item_html_def bind_def)
qed

section \<open>Anchors in the fragments\<close>

text \<open>
  Text without \<^verbatim>\<open><\<close> opens no tag, and a value without a double quote stays inside the
  quotes of its attribute.
\<close>

lemma scan_text: "text_safe s \<Longrightarrow> scan InText t (s @ r) = scan InText t r"
  by (induction s) (simp_all add: text_safe_def)

lemma scan_quoted: "href_safe s \<Longrightarrow> scan DoubleQuoted t (s @ r) = scan DoubleQuoted (t @ s) r"
  by (induction s arbitrary: t) (simp_all add: href_safe_def)

lemma contains_here: "contains p (p @ r)"
proof (cases "p @ r")
  case Nil
  then show ?thesis by simp
next
  case (Cons a list)
  have "take (length p) (p @ r) = p" by simp
  with Cons show ?thesis by simp
qed

lemma contains_later: "contains p r \<Longrightarrow> contains p (s @ r)"
  by (induction s) auto

lemma contains_inside: "contains p (s @ p @ r)"
  by (rule contains_later) (rule contains_here)

lemma carries_noopener_anchor:
  \<open>carries_noopener (''<a href="'' @ u @ ''" target="_blank" rel="noopener"'')\<close>
proof -
  have 1: \<open>contains '' target="_blank"'' ((''<a href="'' @ u @ ''"'') @ '' target="_blank"'' @ '' rel="noopener"'')\<close>
    by (rule contains_inside)
  have 2: \<open>contains '' rel="noopener"'' ((''<a href="'' @ u @ ''" target="_blank"'') @ '' rel="noopener"'' @ [])\<close>
    by (rule contains_inside)
  from 1 2 show ?thesis by (simp add: carries_noopener_def)
qed

lemma anchor_tags_link:
  assumes "text_safe u" "href_safe u"
  shows \<open>anchor_tags (''<a href="'' @ u @ ''" target="_blank" rel="noopener">'' @ u @ ''</a>'') =
    [''<a href="'' @ u @ ''" target="_blank" rel="noopener"'']\<close>
  using assms
  by (simp add: anchor_tags_def tags_def scan_text scan_quoted opens_anchor_def is_space_def)

lemma safe_field_cases:
  assumes "safe_field ok v"
  obtains "v = None" | s where "v = Some (JStr s)" "ok s"
  using assms by (cases v; cases "the v") (auto simp: safe_field_def)

lemma text_safe_Untitled: "text_safe ''Untitled''"
  by (simp add: text_safe_def)

lemma text_safe_Nil: "text_safe []"
  by (simp add: text_safe_def)

lemma safe_text_field:
  assumes "safe_field text_safe (own_property kvs k)" "text_safe d"
  shows "\<exists>h. interp_or (JObj kvs) k d = Inr h \<and> text_safe h"
  using assms(1) by (rule safe_field_cases) (simp_all add: interp_or_obj assms(2))

lemma safe_why_block:
  assumes "safe_field text_safe (own_property kvs ''why'')"
  shows "why_block (JObj kvs) = Inr [] \<or>
    (\<exists>w. text_safe w \<and>
       why_block (JObj kvs) = Inr (''<p><strong>Why it matters:</strong> '' @ w @ ''</p>''))"
  using assms by (rule safe_field_cases) (auto simp: why_block_obj bind_def)

lemma safe_link_block:
  assumes "safe_field href_safe (own_property kvs ''link'')"
  shows \<open>((\<forall>label. link_block label (JObj kvs) = Inr []) \<and>
      (case get_prop (JObj kvs) ''link'' of
         Inr (Json (JStr l)) \<Rightarrow> if l = [] then [] else [''<a href="'' @ l @ ''" target="_blank" rel="noopener"'']
       | _ \<Rightarrow> []) = []) \<or>
    (\<exists>l. href_safe l \<and>
       (\<forall>label. link_block label (JObj kvs) =
          Inr (''<p class="link"><a href="'' @ l @ ''" target="_blank" rel="noopener">'' @ label @ ''</a></p>'')) \<and>
       (case get_prop (JObj kvs) ''link'' of
         Inr (Json (JStr l)) \<Rightarrow> if l = [] then [] else [''<a href="'' @ l @ ''" target="_blank" rel="noopener"'']
       | _ \<Rightarrow> []) = [''<a href="'' @ l @ ''" target="_blank" rel="noopener"''])\<close>
  using assms by (rule safe_field_cases) (auto simp: link_block_obj bind_def)

lemma safe_item_anchors:
  assumes "safe_item item"
  shows \<open>\<exists>h n. improvement_item_html item = Inr h \<and> news_item_html item = Inr n \<and>
     anchor_tags n = anchor_tags h \<and>
     anchor_tags h =
       (case get_prop item ''link'' of
          Inr (Json (JStr l)) \<Rightarrow>
            if l = [] then [] else [''<a href="'' @ l @ ''" target="_blank" rel="noopener"'']
        | _ \<Rightarrow> [])\<close>
proof -
  from assms obtain kvs where item: "item = JObj kvs"
    and f: "safe_field text_safe (own_property kvs ''headline'')"
      "safe_field text_safe (own_property kvs ''summary'')"
      "safe_field text_safe (own_property kvs ''why'')"
      "safe_field href_safe (own_property kvs ''link'')"
    by (cases item) (auto simp: safe_item_def)
  from safe_text_field [OF f(1) text_safe_Untitled]
  obtain h where h: "interp_or (JObj kvs) ''headline'' ''Untitled'' = Inr h \<and> text_safe h" ..
  from safe_text_field [OF f(2) text_safe_Nil]
  obtain s where s: "interp_or (JObj kvs) ''summary'' [] = Inr s \<and> text_safe s" ..
  note w = safe_why_block [OF f(3)]
  note l = safe_link_block [OF f(4)]
  from l show ?thesis
  proof (elim disjE exE conjE)
    assume l0: "\<forall>label. link_block label (JObj kvs) = Inr []"
    from w show ?thesis
    proof (elim disjE exE conjE)
      assume "why_block (JObj kvs) = Inr []"
      with h s l0 l show ?thesis
        unfolding item
        by (simp add: improvement_item_html_def news_item_html_def bind_def anchor_tags_def
          tags_def scan_text scan_quoted opens_anchor_def is_space_def del: get_prop.simps)
    next
      fix w assume "text_safe w" "why_block (JObj kvs) = Inr (''<p><strong>Why it matters:</strong> '' @ w @ ''</p>'')"
      with h s l0 l show ?thesis
        unfolding item
        by (simp add: improvement_item_html_def news_item_html_def bind_def anchor_tags_def
          tags_def scan_text scan_quoted opens_anchor_def is_space_def del: get_prop.simps)
    qed
  next
    fix l assume l1: "href_safe l"
      \<open>\<forall>label. link_block label (JObj kvs) =
          Inr (''<p class="link"><a href="'' @ l @ ''" target="_blank" rel="noopener">'' @ label @ ''</a></p>'')\<close>
      \<open>(case get_prop (JObj kvs) ''link'' of
         Inr (Json (JStr l)) \<Rightarrow> if l = [] then [] else [''<a href="'' @ l @ ''" target="_blank" rel="noopener"'']
       | _ \<Rightarrow> []) = [''<a href="'' @ l @ ''" target="_blank" rel="noopener"'']\<close>
    from w show ?thesis
    proof (elim disjE exE conjE)
      assume "why_block (JObj kvs) = Inr []"
      with h s l1 show ?thesis
        unfolding item
        by (simp add: improvement_item_html_def news_item_html_def bind_def anchor_tags_def
          tags_def scan_text scan_quoted opens_anchor_def is_space_def del: get_prop.simps)
    next
      fix w assume "text_safe w" "why_block (JObj kvs) = Inr (''<p><strong>Why it matters:</strong> '' @ w @ ''</p>'')"
      with h s l1 show ?thesis
        unfolding item
        by (simp add: improvement_item_html_def news_item_html_def bind_def anchor_tags_def
          tags_def scan_text scan_quoted opens_anchor_def is_space_def del: get_prop.simps)
    qed
  qed
qed

section \<open>C1: a response with a non-2xx status\<close>

text \<open>
  C1, as stated, fails: no loader reads the status of the response. A response with status
  404 whose body is the JSON text of one source entry is rendered like any other: the
  \<^verbatim>\<open>catch\<close> clause is not entered and the container holds the entry, not an error message.
\<close>

theorem not_found_with_json_body_is_rendered:
  \<open>status \<lparr>status = 404, json_body = Inr example_sources\<rparr> = 404 \<and>
   loadSources_attempt (Resolved \<lparr>status = 404, json_body = Inr example_sources\<rparr>) example_page =
     (None, example_page(''sources-agg'' \<mapsto>
        \<lparr>html = [],
         children = [li ''[A] <a href="http://x.test" target="_blank" rel="noopener">http://x.test</a>'']\<rparr>)) \<and>
   loadSources (Resolved \<lparr>status = 404, json_body = Inr example_sources\<rparr>) example_page =
     Inr (example_page(''sources-agg'' \<mapsto>
        \<lparr>html = [],
         children = [li ''[A] <a href="http://x.test" target="_blank" rel="noopener">http://x.test</a>'']\<rparr>))\<close>
proof -
  have p: "example_page ''sources-agg'' \<noteq> None" by (simp add: example_page_def)
  have e: \<open>source_entry_html (JObj [(''from'', JStr ''A''), (''url'', JStr ''http://x.test'')]) =
      Inr ''[A] <a href="http://x.test" target="_blank" rel="noopener">http://x.test</a>''\<close>
    by (simp add: source_entry_html_def interp_def bind_def own_property_def)
  have a: \<open>loadSources_attempt (Resolved \<lparr>status = 404, json_body = Inr example_sources\<rparr>) example_page =
     (None, example_page(''sources-agg'' \<mapsto>
        \<lparr>html = [],
         children = [li ''[A] <a href="http://x.test" target="_blank" rel="noopener">http://x.test</a>'']\<rparr>))\<close>
    using p e
    by (simp add: loadSources_attempt_data sequence_failure_def region_def entries_def
        example_sources_def own_property_def)
  show ?thesis using p a by (simp add: loadSources_finish)
qed

text \<open>
  C1, amended: the status of a completed request is never read, so a response is handled
  the same whatever its status; a response (non-2xx or not) whose body does not parse as JSON
  is a failure, and the container's content is then replaced with the single error message
  that embeds the description of the parse failure.
\<close>

theorem unparseable_body_fails_whatever_the_status:
  "loadSources (Resolved \<lparr>status = n, json_body = b\<rparr>) pg =
     loadSources (Resolved \<lparr>status = 200, json_body = b\<rparr>) pg \<and>
   loadImprovements (Resolved \<lparr>status = n, json_body = b\<rparr>) pg =
     loadImprovements (Resolved \<lparr>status = 200, json_body = b\<rparr>) pg \<and>
   loadNews (Resolved \<lparr>status = n, json_body = b\<rparr>) pg =
     loadNews (Resolved \<lparr>status = 200, json_body = b\<rparr>) pg \<and>
   (pg ''sources-agg'' \<noteq> None \<longrightarrow>
      loadSources (Resolved \<lparr>status = n, json_body = Inl e\<rparr>) pg =
        Inr (pg(''sources-agg'' \<mapsto>
          showing (''<li>Failed to load sources. '' @ describe e @ ''</li>'')))) \<and>
   (pg ''improvements-list'' \<noteq> None \<longrightarrow>
      loadImprovements (Resolved \<lparr>status = n, json_body = Inl e\<rparr>) pg =
        Inr (pg(''improvements-list'' \<mapsto>
          showing (''<p>Failed to load improvements. '' @ describe e @ ''</p>'')))) \<and>
   (pg ''news-list'' \<noteq> None \<longrightarrow>
      loadNews (Resolved \<lparr>status = n, json_body = Inl e\<rparr>) pg =
        Inr (pg(''news-list'' \<mapsto>
          showing (''<p>Failed to load news. '' @ describe e @ ''</p>''))))"
proof -
  have f: "request_failure (Resolved \<lparr>status = n, json_body = Inl e\<rparr>) = Some e"
    by (simp add: request_failure_def)
  show ?thesis
    using status_unread [where res = "\<lparr>status = 200, json_body = b\<rparr>" and n = n and pg = pg] f
    by (simp add: loadSources_finish loadImprovements_finish loadNews_finish
        loadSources_attempt_failure loadImprovements_attempt_failure loadNews_attempt_failure)
qed

theorem unparseable_body_fails_whatever_the_status_witness:
  "example_page ''sources-agg'' \<noteq> None \<and>
   example_page ''improvements-list'' \<noteq> None \<and>
   example_page ''news-list'' \<noteq> None \<and>
   loadSources (Resolved \<lparr>status = 500, json_body = Inl (SyntaxError ''Unexpected token'')\<rparr>)
       example_page =
     Inr (example_page(''sources-agg'' \<mapsto>
       showing ''<li>Failed to load sources. SyntaxError: Unexpected token</li>'')) \<and>
   loadImprovements (Resolved \<lparr>status = 500, json_body = Inl (SyntaxError ''Unexpected token'')\<rparr>)
       example_page =
     Inr (example_page(''improvements-list'' \<mapsto>
       showing ''<p>Failed to load improvements. SyntaxError: Unexpected token</p>'')) \<and>
   loadNews (Resolved \<lparr>status = 500, json_body = Inl (SyntaxError ''Unexpected token'')\<rparr>)
       example_page =
     Inr (example_page(''news-list'' \<mapsto>
       showing ''<p>Failed to load news. SyntaxError: Unexpected token</p>''))"
proof -
  have p: "example_page ''sources-agg'' \<noteq> None" "example_page ''improvements-list'' \<noteq> None"
    "example_page ''news-list'' \<noteq> None"
    by (simp_all add: example_page_def)
  have d: "describe (SyntaxError ''Unexpected token'') = ''SyntaxError: Unexpected token''"
    by (simp add: describe_def SyntaxError_def)
  note t = unparseable_body_fails_whatever_the_status
    [of 500 "Inl (SyntaxError ''Unexpected token'')" example_page "SyntaxError ''Unexpected token''",
     THEN conjunct2, THEN conjunct2, THEN conjunct2]
  have 1: "loadSources (Resolved \<lparr>status = 500, json_body = Inl (SyntaxError ''Unexpected token'')\<rparr>)
       example_page =
     Inr (example_page(''sources-agg'' \<mapsto>
       showing ''<li>Failed to load sources. SyntaxError: Unexpected token</li>''))"
    using t [THEN conjunct1, THEN mp, OF p(1)] by (simp add: d)
  have 2: "loadImprovements (Resolved \<lparr>status = 500, json_body = Inl (SyntaxError ''Unexpected token'')\<rparr>)
       example_page =
     Inr (example_page(''improvements-list'' \<mapsto>
       showing ''<p>Failed to load improvements. SyntaxError: Unexpected token</p>''))"
    using t [THEN conjunct2, THEN conjunct1, THEN mp, OF p(2)] by (simp add: d)
  have 3: "loadNews (Resolved \<lparr>status = 500, json_body = Inl (SyntaxError ''Unexpected token'')\<rparr>)
       example_page =
     Inr (example_page(''news-list'' \<mapsto>
       showing ''<p>Failed to load news. SyntaxError: Unexpected token</p>''))"
    using t [THEN conjunct2, THEN conjunct2, THEN mp, OF p(3)] by (simp add: d)
  show ?thesis by (intro conjI p 1 2 3)
qed

section \<open>C2: the container once the loader has settled\<close>

text \<open>
  C2: on a page that has the loader's container, every outcome of the request makes the
  loader resolve, and its container then holds exactly one of the error message and a full
  render of the response (for the two feeds: of both regions); it never holds the
  \<^verbatim>\<open>Loading...\<close> placeholder.
\<close>

theorem settles_to_full_render_or_error:
  "(pg ''sources-agg'' \<noteq> None \<longrightarrow>
      (\<exists>pg' c. loadSources out pg = Inr pg' \<and> pg' ''sources-agg'' = Some c \<and>
          c \<noteq> showing ''<li>Loading...</li>'' \<and>
          ((\<exists>e. c = showing (''<li>Failed to load sources. '' @ describe e @ ''</li>'')) \<noteq>
           (\<exists>res data. out = Resolved res \<and> json_body res = Inr data \<and>
              full_render source_entry_html li (entries data ''sources'') c)))) \<and>
   (pg ''improvements-list'' \<noteq> None \<longrightarrow>
      (\<exists>pg' c. loadImprovements out pg = Inr pg' \<and> pg' ''improvements-list'' = Some c \<and>
          c \<noteq> showing ''<p>Loading...</p>'' \<and>
          ((\<exists>e. c = showing (''<p>Failed to load improvements. '' @ describe e @ ''</p>'')) \<noteq>
           (\<exists>res data s. out = Resolved res \<and> json_body res = Inr data \<and>
              full_render improvement_item_html item_div (entries data ''items'') c \<and>
              pg' ''sources-list'' = Some s \<and>
              full_render source_link_html li (entries data ''sources'') s)))) \<and>
   (pg ''news-list'' \<noteq> None \<longrightarrow>
      (\<exists>pg' c. loadNews out pg = Inr pg' \<and> pg' ''news-list'' = Some c \<and>
          c \<noteq> showing ''<p>Loading...</p>'' \<and>
          ((\<exists>e. c = showing (''<p>Failed to load news. '' @ describe e @ ''</p>'')) \<noteq>
           (\<exists>res data s. out = Resolved res \<and> json_body res = Inr data \<and>
              full_render news_item_html item_div (entries data ''items'') c \<and>
              pg' ''sources-list'' = Some s \<and>
              full_render source_link_html li (entries data ''sources'') s))))"
  using sources_settle [of pg out] improvements_settle [of pg out] news_settle [of pg out]
  by (intro conjI impI)

theorem settles_to_full_render_or_error_witness:
  "example_page ''sources-agg'' \<noteq> None \<and>
   example_page ''improvements-list'' \<noteq> None \<and>
   example_page ''news-list'' \<noteq> None \<and>
   (\<exists>pg' c. loadSources (ok_response example_feed) example_page = Inr pg' \<and>
      pg' ''sources-agg'' = Some c \<and> c \<noteq> showing ''<li>Loading...</li>'' \<and>
      ((\<exists>e. c = showing (''<li>Failed to load sources. '' @ describe e @ ''</li>'')) \<noteq>
       (\<exists>res data. ok_response example_feed = Resolved res \<and> json_body res = Inr data \<and>
          full_render source_entry_html li (entries data ''sources'') c))) \<and>
   (\<exists>pg' c. loadImprovements (ok_response example_feed) example_page = Inr pg' \<and>
      pg' ''improvements-list'' = Some c \<and> c \<noteq> showing ''<p>Loading...</p>'' \<and>
      ((\<exists>e. c = showing (''<p>Failed to load improvements. '' @ describe e @ ''</p>'')) \<noteq>
       (\<exists>res data s. ok_response example_feed = Resolved res \<and> json_body res = Inr data \<and>
          full_render improvement_item_html item_div (entries data ''items'') c \<and>
          pg' ''sources-list'' = Some s \<and>
          full_render source_link_html li (entries data ''sources'') s))) \<and>
   (\<exists>pg' c. loadNews (ok_response example_feed) example_page = Inr pg' \<and>
      pg' ''news-list'' = Some c \<and> c \<noteq> showing ''<p>Loading...</p>'' \<and>
      ((\<exists>e. c = showing (''<p>Failed to load news. '' @ describe e @ ''</p>'')) \<noteq>
       (\<exists>res data s. ok_response example_feed = Resolved res \<and> json_body res = Inr data \<and>
          full_render news_item_html item_div (entries data ''items'') c \<and>
          pg' ''sources-list'' = Some s \<and>
          full_render source_link_html li (entries data ''sources'') s)))"
proof -
  have p: "example_page ''sources-agg'' \<noteq> None" "example_page ''improvements-list'' \<noteq> None"
    "example_page ''news-list'' \<noteq> None"
    by (simp_all add: example_page_def)
  note t = settles_to_full_render_or_error [of example_page "ok_response example_feed"]
  show ?thesis
    by (intro conjI p t [THEN conjunct1, THEN mp, OF p(1)]
        t [THEN conjunct2, THEN conjunct1, THEN mp, OF p(2)]
        t [THEN conjunct2, THEN conjunct2, THEN mp, OF p(3)])
qed

section \<open>C3: the loading placeholder\<close>

text \<open>
  C3, as stated, fails for the sources container of the improvements view and of the news
  view. A call of either loader on a page whose \<^verbatim>\<open>sources-list\<close> shows \<^verbatim>\<open><li>old</li>\<close>, answered
  by a response that parses, issues its request on a page where only the list container
  shows \<^verbatim>\<open>Loading...\<close>: \<^verbatim>\<open>sources-list\<close> still shows \<^verbatim>\<open><li>old</li>\<close>, and is written only when the
  response is rendered.
\<close>

theorem sources_list_not_set_to_loading:
  "loadImprovements_run (ok_response example_feed) example_page =
     Inr \<lparr>at_request = example_page(''improvements-list'' \<mapsto> showing ''<p>Loading...</p>''),
          settled = example_page(
            ''improvements-list'' \<mapsto> region improvement_item_html item_div example_feed ''items'',
            ''sources-list'' \<mapsto> region source_link_html li example_feed ''sources'')\<rparr> \<and>
   loadNews_run (ok_response example_feed) example_page =
     Inr \<lparr>at_request = example_page(''news-list'' \<mapsto> showing ''<p>Loading...</p>''),
          settled = example_page(
            ''news-list'' \<mapsto> region news_item_html item_div example_feed ''items'',
            ''sources-list'' \<mapsto> region source_link_html li example_feed ''sources'')\<rparr> \<and>
   (example_page(''improvements-list'' \<mapsto> showing ''<p>Loading...</p>'')) ''sources-list'' =
     Some (showing ''<li>old</li>'') \<and>
   (example_page(''news-list'' \<mapsto> showing ''<p>Loading...</p>'')) ''sources-list'' =
     Some (showing ''<li>old</li>'') \<and>
   showing ''<li>old</li>'' \<noteq> showing ''<p>Loading...</p>'' \<and>
   showing ''<li>old</li>'' \<noteq> showing ''<li>Loading...</li>''"
proof -
  have p: "example_page ''improvements-list'' \<noteq> None" "example_page ''news-list'' \<noteq> None"
    by (simp_all add: example_page_def)
  have j: "json_body \<lparr>status = 200, json_body = Inr example_feed\<rparr> = Inr example_feed"
    by simp
  have s: "example_page ''sources-list'' = Some (showing ''<li>old</li>'')"
    by (simp add: example_page_def)
  have f: "sequence_failure improvement_item_html example_feed ''items'' = None"
    "sequence_failure news_item_html example_feed ''items'' = None"
    "sequence_failure source_link_html example_feed ''sources'' = None"
    by (simp_all add: sequence_failure_def example_feed_def own_property_def
        improvement_item_html_def news_item_html_def source_link_html_def interp_or_def
        why_block_def link_block_def bind_def)
  have a: "loadImprovements_attempt (ok_response example_feed) example_page =
      (None, example_page(
         ''improvements-list'' \<mapsto> region improvement_item_html item_div example_feed ''items'',
         ''sources-list'' \<mapsto> region source_link_html li example_feed ''sources''))"
    unfolding ok_response_def
      loadImprovements_attempt_data [where pg = example_page and data = example_feed, OF p(1) j]
    by (simp add: f s)
  have b: "loadNews_attempt (ok_response example_feed) example_page =
      (None, example_page(
         ''news-list'' \<mapsto> region news_item_html item_div example_feed ''items'',
         ''sources-list'' \<mapsto> region source_link_html li example_feed ''sources''))"
    unfolding ok_response_def
      loadNews_attempt_data [where pg = example_page and data = example_feed, OF p(2) j]
    by (simp add: f s)
  have 1: "loadImprovements_run (ok_response example_feed) example_page =
     Inr \<lparr>at_request = example_page(''improvements-list'' \<mapsto> showing ''<p>Loading...</p>''),
          settled = example_page(
            ''improvements-list'' \<mapsto> region improvement_item_html item_div example_feed ''items'',
            ''sources-list'' \<mapsto> region source_link_html li example_feed ''sources'')\<rparr>"
    unfolding loadImprovements_run_eq
      [where pg = example_page and out = "ok_response example_feed", OF p(1)] a
    by simp
  have 2: "loadNews_run (ok_response example_feed) example_page =
     Inr \<lparr>at_request = example_page(''news-list'' \<mapsto> showing ''<p>Loading...</p>''),
          settled = example_page(
            ''news-list'' \<mapsto> region news_item_html item_div example_feed ''items'',
            ''sources-list'' \<mapsto> region source_link_html li example_feed ''sources'')\<rparr>"
    unfolding loadNews_run_eq
      [where pg = example_page and out = "ok_response example_feed", OF p(2)] b
    by simp
  have 3: "(example_page(''improvements-list'' \<mapsto> showing ''<p>Loading...</p>'')) ''sources-list'' =
     Some (showing ''<li>old</li>'')"
    "(example_page(''news-list'' \<mapsto> showing ''<p>Loading...</p>'')) ''sources-list'' =
     Some (showing ''<li>old</li>'')"
    by (simp_all add: s)
  have 4: "showing ''<li>old</li>'' \<noteq> showing ''<p>Loading...</p>''"
    "showing ''<li>old</li>'' \<noteq> showing ''<li>Loading...</li>''"
    by (simp_all add: showing_def)
  show ?thesis by (intro conjI 1 2 3 4)
qed

text \<open>
  C3, amended: every loader invocation on a page that has the loader's list container
  (\<^verbatim>\<open>sources-agg\<close>, \<^verbatim>\<open>improvements-list\<close>, \<^verbatim>\<open>news-list\<close>) issues its request on the page it was
  called on with the content of that one container replaced by a single \<^verbatim>\<open>Loading...\<close>
  placeholder, whatever the outcome of the request. The sources container of the
  improvements and news views holds at the request what it held before the call, and when
  the loader has settled it holds that still, unless a response has been parsed and its
  sources rendered into it.
\<close>

theorem loading_shown_when_request_is_issued:
  "(pg ''sources-agg'' \<noteq> None \<longrightarrow>
      (\<exists>r. loadSources_run out pg = Inr r \<and> loadSources out pg = Inr (settled r) \<and>
           at_request r = pg(''sources-agg'' \<mapsto> showing ''<li>Loading...</li>''))) \<and>
   (pg ''improvements-list'' \<noteq> None \<longrightarrow>
      (\<exists>r. loadImprovements_run out pg = Inr r \<and> loadImprovements out pg = Inr (settled r) \<and>
           at_request r = pg(''improvements-list'' \<mapsto> showing ''<p>Loading...</p>'') \<and>
           at_request r ''sources-list'' = pg ''sources-list'' \<and>
           (settled r ''sources-list'' = pg ''sources-list'' \<or>
            (\<exists>res data. out = Resolved res \<and> json_body res = Inr data \<and>
               settled r ''sources-list'' = Some (region source_link_html li data ''sources''))))) \<and>
   (pg ''news-list'' \<noteq> None \<longrightarrow>
      (\<exists>r. loadNews_run out pg = Inr r \<and> loadNews out pg = Inr (settled r) \<and>
           at_request r = pg(''news-list'' \<mapsto> showing ''<p>Loading...</p>'') \<and>
           at_request r ''sources-list'' = pg ''sources-list'' \<and>
           (settled r ''sources-list'' = pg ''sources-list'' \<or>
            (\<exists>res data. out = Resolved res \<and> json_body res = Inr data \<and>
               settled r ''sources-list'' = Some (region source_link_html li data ''sources'')))))"
proof (intro conjI impI)
  assume i: "pg ''sources-agg'' \<noteq> None"
  from sources_run_cases [where pg = pg and out = out, OF i]
  obtain pg' where r: "loadSources_run out pg =
      Inr \<lparr>at_request = pg(''sources-agg'' \<mapsto> showing ''<li>Loading...</li>''), settled = pg'\<rparr> \<and>
    loadSources out pg = Inr pg'" ..
  show "\<exists>r. loadSources_run out pg = Inr r \<and> loadSources out pg = Inr (settled r) \<and>
           at_request r = pg(''sources-agg'' \<mapsto> showing ''<li>Loading...</li>'')"
    apply (rule exI [of _ "\<lparr>at_request = pg(''sources-agg'' \<mapsto> showing ''<li>Loading...</li>''),
      settled = pg'\<rparr>"])
    using r apply simp
    done
next
  assume i: "pg ''improvements-list'' \<noteq> None"
  from improvements_run_cases [where pg = pg and out = out, OF i]
  obtain pg' where r: "loadImprovements_run out pg =
      Inr \<lparr>at_request = pg(''improvements-list'' \<mapsto> showing ''<p>Loading...</p>''), settled = pg'\<rparr> \<and>
    loadImprovements out pg = Inr pg' \<and>
    (pg' ''sources-list'' = pg ''sources-list'' \<or>
     (\<exists>res data. out = Resolved res \<and> json_body res = Inr data \<and>
        pg' ''sources-list'' = Some (region source_link_html li data ''sources'')))" ..
  show "\<exists>r. loadImprovements_run out pg = Inr r \<and> loadImprovements out pg = Inr (settled r) \<and>
           at_request r = pg(''improvements-list'' \<mapsto> showing ''<p>Loading...</p>'') \<and>
           at_request r ''sources-list'' = pg ''sources-list'' \<and>
           (settled r ''sources-list'' = pg ''sources-list'' \<or>
            (\<exists>res data. out = Resolved res \<and> json_body res = Inr data \<and>
               settled r ''sources-list'' = Some (region source_link_html li data ''sources'')))"
    apply (rule exI [of _ "\<lparr>at_request = pg(''improvements-list'' \<mapsto> showing ''<p>Loading...</p>''),
      settled = pg'\<rparr>"])
    using r apply simp
    done
next
  assume i: "pg ''news-list'' \<noteq> None"
  from news_run_cases [where pg = pg and out = out, OF i]
  obtain pg' where r: "loadNews_run out pg =
      Inr \<lparr>at_request = pg(''news-list'' \<mapsto> showing ''<p>Loading...</p>''), settled = pg'\<rparr> \<and>
    loadNews out pg = Inr pg' \<and>
    (pg' ''sources-list'' = pg ''sources-list'' \<or>
     (\<exists>res data. out = Resolved res \<and> json_body res = Inr data \<and>
        pg' ''sources-list'' = Some (region source_link_html li data ''sources'')))" ..
  show "\<exists>r. loadNews_run out pg = Inr r \<and> loadNews out pg = Inr (settled r) \<and>
           at_request r = pg(''news-list'' \<mapsto> showing ''<p>Loading...</p>'') \<and>
           at_request r ''sources-list'' = pg ''sources-list'' \<and>
           (settled r ''sources-list'' = pg ''sources-list'' \<or>
            (\<exists>res data. out = Resolved res \<and> json_body res = Inr data \<and>
               settled r ''sources-list'' = Some (region source_link_html li data ''sources'')))"
    apply (rule exI [of _ "\<lparr>at_request = pg(''news-list'' \<mapsto> showing ''<p>Loading...</p>''),
      settled = pg'\<rparr>"])
    using r apply simp
    done
qed

theorem loading_shown_when_request_is_issued_witness:
  "example_page ''sources-agg'' \<noteq> None \<and>
   example_page ''improvements-list'' \<noteq> None \<and>
   example_page ''news-list'' \<noteq> None \<and>
   (\<exists>r. loadSources_run (ok_response example_sources) example_page = Inr r \<and>
        loadSources (ok_response example_sources) example_page = Inr (settled r) \<and>
        at_request r = example_page(''sources-agg'' \<mapsto> showing ''<li>Loading...</li>'')) \<and>
   (\<exists>r. loadImprovements_run (ok_response example_sources) example_page = Inr r \<and>
        loadImprovements (ok_response example_sources) example_page = Inr (settled r) \<and>
        at_request r = example_page(''improvements-list'' \<mapsto> showing ''<p>Loading...</p>'') \<and>
        at_request r ''sources-list'' = example_page ''sources-list'' \<and>
        (settled r ''sources-list'' = example_page ''sources-list'' \<or>
         (\<exists>res data. ok_response example_sources = Resolved res \<and> json_body res = Inr data \<and>
            settled r ''sources-list'' = Some (region source_link_html li data ''sources'')))) \<and>
   (\<exists>r. loadNews_run (ok_response example_sources) example_page = Inr r \<and>
        loadNews (ok_response example_sources) example_page = Inr (settled r) \<and>
        at_request r = example_page(''news-list'' \<mapsto> showing ''<p>Loading...</p>'') \<and>
        at_request r ''sources-list'' = example_page ''sources-list'' \<and>
        (settled r ''sources-list'' = example_page ''sources-list'' \<or>
         (\<exists>res data. ok_response example_sources = Resolved res \<and> json_body res = Inr data \<and>
            settled r ''sources-list'' = Some (region source_link_html li data ''sources''))))"
proof -
  have p: "example_page ''sources-agg'' \<noteq> None" "example_page ''improvements-list'' \<noteq> None"
    "example_page ''news-list'' \<noteq> None"
    by (simp_all add: example_page_def)
  note t = loading_shown_when_request_is_issued [of example_page "ok_response example_sources"]
  show ?thesis
    by (intro conjI p t [THEN conjunct1, THEN mp, OF p(1)]
        t [THEN conjunct2, THEN conjunct1, THEN mp, OF p(2)]
        t [THEN conjunct2, THEN conjunct2, THEN mp, OF p(3)])
qed

section \<open>C4: one entry per element, in order\<close>

text \<open>
  C4: for a response of the documented shape, on a page that has the containers, each region
  is rendered in full: it holds as many entries as the sequence of the response has
  elements, the \<open>i\<close>-th entry being the fragment of the \<open>i\<close>-th element.
\<close>

theorem valid_response_renders_every_entry_in_order:
  "(valid_sources_response d \<and> pg ''sources-agg'' \<noteq> None \<longrightarrow>
      (\<exists>c. loadSources (Resolved \<lparr>status = n, json_body = Inr d\<rparr>) pg =
              Inr (pg(''sources-agg'' \<mapsto> c)) \<and>
           full_render source_entry_html li (entries d ''sources'') c)) \<and>
   (valid_feed_response f \<and> pg ''improvements-list'' \<noteq> None \<and> pg ''sources-list'' \<noteq> None \<longrightarrow>
      (\<exists>c s. loadImprovements (Resolved \<lparr>status = n, json_body = Inr f\<rparr>) pg =
                Inr (pg(''improvements-list'' \<mapsto> c, ''sources-list'' \<mapsto> s)) \<and>
             full_render improvement_item_html item_div (entries f ''items'') c \<and>
             full_render source_link_html li (entries f ''sources'') s)) \<and>
   (valid_feed_response f \<and> pg ''news-list'' \<noteq> None \<and> pg ''sources-list'' \<noteq> None \<longrightarrow>
      (\<exists>c s. loadNews (Resolved \<lparr>status = n, json_body = Inr f\<rparr>) pg =
                Inr (pg(''news-list'' \<mapsto> c, ''sources-list'' \<mapsto> s)) \<and>
             full_render news_item_html item_div (entries f ''items'') c \<and>
             full_render source_link_html li (entries f ''sources'') s))"
proof (intro conjI impI; elim conjE)
  let ?res = "\<lparr>status = n, json_body = Inr d\<rparr>"
  assume v: "valid_sources_response d" and i: "pg ''sources-agg'' \<noteq> None"
  from v have nf: "sequence_failure source_entry_html d ''sources'' = None"
    by (rule valid_sources_no_failure)
  have "loadSources (Resolved ?res) pg =
      Inr (pg(''sources-agg'' \<mapsto> region source_entry_html li d ''sources''))"
    using i nf by (simp add: loadSources_finish loadSources_attempt_data)
  moreover have "full_render source_entry_html li (entries d ''sources'')
      (region source_entry_html li d ''sources'')"
    using nf by (rule full_render_region) (rule innerHTML_li)
  ultimately show "\<exists>c. loadSources (Resolved ?res) pg = Inr (pg(''sources-agg'' \<mapsto> c)) \<and>
             full_render source_entry_html li (entries d ''sources'') c"
    by (intro exI conjI)
next
  let ?res = "\<lparr>status = n, json_body = Inr f\<rparr>"
  assume v: "valid_feed_response f" and i: "pg ''improvements-list'' \<noteq> None"
    and j: "pg ''sources-list'' \<noteq> None"
  note nf = valid_feed_no_failure [OF v]
  have "loadImprovements (Resolved ?res) pg =
      Inr (pg(''improvements-list'' \<mapsto> region improvement_item_html item_div f ''items'',
              ''sources-list'' \<mapsto> region source_link_html li f ''sources''))"
    using i j nf
    by (auto simp: loadImprovements_finish
        loadImprovements_attempt_data [where pg = pg and res = ?res and data = f])
  moreover have "full_render improvement_item_html item_div (entries f ''items'')
      (region improvement_item_html item_div f ''items'')"
    using nf(1) by (rule full_render_region) (rule innerHTML_item_div)
  moreover have "full_render source_link_html li (entries f ''sources'')
      (region source_link_html li f ''sources'')"
    using nf(3) by (rule full_render_region) (rule innerHTML_li)
  ultimately show "\<exists>c s. loadImprovements (Resolved ?res) pg =
                 Inr (pg(''improvements-list'' \<mapsto> c, ''sources-list'' \<mapsto> s)) \<and>
               full_render improvement_item_html item_div (entries f ''items'') c \<and>
               full_render source_link_html li (entries f ''sources'') s"
    by (intro exI conjI)
next
  let ?res = "\<lparr>status = n, json_body = Inr f\<rparr>"
  assume v: "valid_feed_response f" and i: "pg ''news-list'' \<noteq> None"
    and j: "pg ''sources-list'' \<noteq> None"
  note nf = valid_feed_no_failure [OF v]
  have "loadNews (Resolved ?res) pg =
      Inr (pg(''news-list'' \<mapsto> region news_item_html item_div f ''items'',
              ''sources-list'' \<mapsto> region source_link_html li f ''sources''))"
    using i j nf
    by (auto simp: loadNews_finish
        loadNews_attempt_data [where pg = pg and res = ?res and data = f])
  moreover have "full_render news_item_html item_div (entries f ''items'')
      (region news_item_html item_div f ''items'')"
    using nf(2) by (rule full_render_region) (rule innerHTML_item_div)
  moreover have "full_render source_link_html li (entries f ''sources'')
      (region source_link_html li f ''sources'')"
    using nf(3) by (rule full_render_region) (rule innerHTML_li)
  ultimately show "\<exists>c s. loadNews (Resolved ?res) pg =
                 Inr (pg(''news-list'' \<mapsto> c, ''sources-list'' \<mapsto> s)) \<and>
               full_render news_item_html item_div (entries f ''items'') c \<and>
               full_render source_link_html li (entries f ''sources'') s"
    by (intro exI conjI)
qed

theorem valid_response_renders_every_entry_in_order_witness:
  \<open>valid_sources_response two_sources \<and> valid_feed_response two_item_feed \<and>
   example_page ''sources-agg'' \<noteq> None \<and>
   example_page ''improvements-list'' \<noteq> None \<and>
   example_page ''news-list'' \<noteq> None \<and>
   example_page ''sources-list'' \<noteq> None \<and>
   entries two_sources ''sources'' =
     [JObj [(''from'', JStr ''B''), (''url'', JStr ''http://b.test'')],
      JObj [(''from'', JStr ''A''), (''url'', JStr ''http://a.test'')]] \<and>
   entries two_item_feed ''items'' =
     [JObj [(''headline'', JStr ''Second'')], JObj [(''headline'', JStr ''First'')]] \<and>
   entries two_item_feed ''sources'' = [JStr ''http://b.test'', JStr ''http://a.test''] \<and>
   loadSources (Resolved \<lparr>status = 200, json_body = Inr two_sources\<rparr>) example_page =
     Inr (example_page(''sources-agg'' \<mapsto>
       \<lparr>html = [],
        children =
          [li ''[B] <a href="http://b.test" target="_blank" rel="noopener">http://b.test</a>'',
           li ''[A] <a href="http://a.test" target="_blank" rel="noopener">http://a.test</a>'']\<rparr>)) \<and>
   loadImprovements (Resolved \<lparr>status = 200, json_body = Inr two_item_feed\<rparr>) example_page =
     Inr (example_page(
       ''improvements-list'' \<mapsto>
         \<lparr>html = [],
          children =
            [item_div ''\<newline>        <h3>Second</h3>\<newline>        <p></p>\<newline>        \<newline>        \<newline>      '',
             item_div ''\<newline>        <h3>First</h3>\<newline>        <p></p>\<newline>        \<newline>        \<newline>      '']\<rparr>,
       ''sources-list'' \<mapsto>
         \<lparr>html = [],
          children =
            [li ''<a href="http://b.test" target="_blank" rel="noopener">http://b.test</a>'',
             li ''<a href="http://a.test" target="_blank" rel="noopener">http://a.test</a>'']\<rparr>)) \<and>
   loadNews (Resolved \<lparr>status = 200, json_body = Inr two_item_feed\<rparr>) example_page =
     Inr (example_page(
       ''news-list'' \<mapsto>
         \<lparr>html = [],
          children =
            [item_div ''\<newline>        <h3>Second</h3>\<newline>        <p></p>\<newline>        \<newline>      '',
             item_div ''\<newline>        <h3>First</h3>\<newline>        <p></p>\<newline>        \<newline>      '']\<rparr>,
       ''sources-list'' \<mapsto>
         \<lparr>html = [],
          children =
            [li ''<a href="http://b.test" target="_blank" rel="noopener">http://b.test</a>'',
             li ''<a href="http://a.test" target="_blank" rel="noopener">http://a.test</a>'']\<rparr>))\<close>
proof -
  have p: "example_page ''sources-agg'' \<noteq> None" "example_page ''improvements-list'' \<noteq> None"
    "example_page ''news-list'' \<noteq> None" "example_page ''sources-list'' \<noteq> None"
    by (simp_all add: example_page_def)
  have v: "valid_sources_response two_sources" "valid_feed_response two_item_feed"
    by (simp_all add: valid_sources_response_def valid_feed_response_def two_sources_def
        two_item_feed_def optional_array_def valid_source_entry_def valid_item_def
        required_string_def optional_string_def own_property_def)
  have n: "entries two_sources ''sources'' =
     [JObj [(''from'', JStr ''B''), (''url'', JStr ''http://b.test'')],
      JObj [(''from'', JStr ''A''), (''url'', JStr ''http://a.test'')]]"
    "entries two_item_feed ''items'' =
     [JObj [(''headline'', JStr ''Second'')], JObj [(''headline'', JStr ''First'')]]"
    "entries two_item_feed ''sources'' = [JStr ''http://b.test'', JStr ''http://a.test'']"
    by (simp_all add: entries_def two_sources_def two_item_feed_def own_property_def)
  have m1: \<open>map source_entry_html (entries two_sources ''sources'') =
      map Inr [''[B] <a href="http://b.test" target="_blank" rel="noopener">http://b.test</a>'',
               ''[A] <a href="http://a.test" target="_blank" rel="noopener">http://a.test</a>'']\<close>
    unfolding n by (simp add: source_entry_html_def interp_def bind_def own_property_def)
  have m2: \<open>map improvement_item_html (entries two_item_feed ''items'') =
      map Inr [''\<newline>        <h3>Second</h3>\<newline>        <p></p>\<newline>        \<newline>        \<newline>      '',
               ''\<newline>        <h3>First</h3>\<newline>        <p></p>\<newline>        \<newline>        \<newline>      '']\<close>
    unfolding n
    by (simp add: improvement_item_html_def interp_or_def why_block_def link_block_def bind_def
        own_property_def)
  have m3: \<open>map news_item_html (entries two_item_feed ''items'') =
      map Inr [''\<newline>        <h3>Second</h3>\<newline>        <p></p>\<newline>        \<newline>      '',
               ''\<newline>        <h3>First</h3>\<newline>        <p></p>\<newline>        \<newline>      '']\<close>
    unfolding n
    by (simp add: news_item_html_def interp_or_def link_block_def bind_def own_property_def)
  have m4: \<open>map source_link_html (entries two_item_feed ''sources'') =
      map Inr [''<a href="http://b.test" target="_blank" rel="noopener">http://b.test</a>'',
               ''<a href="http://a.test" target="_blank" rel="noopener">http://a.test</a>'']\<close>
    unfolding n by (simp add: source_link_html_def bind_def)
  note t = valid_response_renders_every_entry_in_order
    [of two_sources example_page 200 two_item_feed]
  from t [THEN conjunct1, THEN mp, OF conjI, OF v(1) p(1)]
  obtain c where c: "loadSources (Resolved \<lparr>status = 200, json_body = Inr two_sources\<rparr>) example_page =
        Inr (example_page(''sources-agg'' \<mapsto> c)) \<and>
      full_render source_entry_html li (entries two_sources ''sources'') c" ..
  have 1: \<open>loadSources (Resolved \<lparr>status = 200, json_body = Inr two_sources\<rparr>) example_page =
     Inr (example_page(''sources-agg'' \<mapsto>
       \<lparr>html = [],
        children =
          [li ''[B] <a href="http://b.test" target="_blank" rel="noopener">http://b.test</a>'',
           li ''[A] <a href="http://a.test" target="_blank" rel="noopener">http://a.test</a>'']\<rparr>))\<close>
    using c [THEN conjunct1] full_render_children [OF c [THEN conjunct2] m1] by simp
  from t [THEN conjunct2, THEN conjunct1, THEN mp, OF conjI, OF v(2) conjI, OF p(2) p(4)]
  obtain c where "\<exists>s. loadImprovements (Resolved \<lparr>status = 200, json_body = Inr two_item_feed\<rparr>) example_page =
        Inr (example_page(''improvements-list'' \<mapsto> c, ''sources-list'' \<mapsto> s)) \<and>
      full_render improvement_item_html item_div (entries two_item_feed ''items'') c \<and>
      full_render source_link_html li (entries two_item_feed ''sources'') s" ..
  then obtain s where cs: "loadImprovements (Resolved \<lparr>status = 200, json_body = Inr two_item_feed\<rparr>) example_page =
        Inr (example_page(''improvements-list'' \<mapsto> c, ''sources-list'' \<mapsto> s)) \<and>
      full_render improvement_item_html item_div (entries two_item_feed ''items'') c \<and>
      full_render source_link_html li (entries two_item_feed ''sources'') s" ..
  have 2: \<open>loadImprovements (Resolved \<lparr>status = 200, json_body = Inr two_item_feed\<rparr>) example_page =
     Inr (example_page(
       ''improvements-list'' \<mapsto>
         \<lparr>html = [],
          children =
            [item_div ''\<newline>        <h3>Second</h3>\<newline>        <p></p>\<newline>        \<newline>        \<newline>      '',
             item_div ''\<newline>        <h3>First</h3>\<newline>        <p></p>\<newline>        \<newline>        \<newline>      '']\<rparr>,
       ''sources-list'' \<mapsto>
         \<lparr>html = [],
          children =
            [li ''<a href="http://b.test" target="_blank" rel="noopener">http://b.test</a>'',
             li ''<a href="http://a.test" target="_blank" rel="noopener">http://a.test</a>'']\<rparr>))\<close>
    using cs [THEN conjunct1]
      full_render_children [OF cs [THEN conjunct2, THEN conjunct1] m2]
      full_render_children [OF cs [THEN conjunct2, THEN conjunct2] m4]
    by simp
  from t [THEN conjunct2, THEN conjunct2, THEN mp, OF conjI, OF v(2) conjI, OF p(3) p(4)]
  obtain c' where "\<exists>s. loadNews (Resolved \<lparr>status = 200, json_body = Inr two_item_feed\<rparr>) example_page =
        Inr (example_page(''news-list'' \<mapsto> c', ''sources-list'' \<mapsto> s)) \<and>
      full_render news_item_html item_div (entries two_item_feed ''items'') c' \<and>
      full_render source_link_html li (entries two_item_feed ''sources'') s" ..
  then obtain s' where cs': "loadNews (Resolved \<lparr>status = 200, json_body = Inr two_item_feed\<rparr>) example_page =
        Inr (example_page(''news-list'' \<mapsto> c', ''sources-list'' \<mapsto> s')) \<and>
      full_render news_item_html item_div (entries two_item_feed ''items'') c' \<and>
      full_render source_link_html li (entries two_item_feed ''sources'') s'" ..
  have 3: \<open>loadNews (Resolved \<lparr>status = 200, json_body = Inr two_item_feed\<rparr>) example_page =
     Inr (example_page(
       ''news-list'' \<mapsto>
         \<lparr>html = [],
          children =
            [item_div ''\<newline>        <h3>Second</h3>\<newline>        <p></p>\<newline>        \<newline>      '',
             item_div ''\<newline>        <h3>First</h3>\<newline>        <p></p>\<newline>        \<newline>      '']\<rparr>,
       ''sources-list'' \<mapsto>
         \<lparr>html = [],
          children =
            [li ''<a href="http://b.test" target="_blank" rel="noopener">http://b.test</a>'',
             li ''<a href="http://a.test" target="_blank" rel="noopener">http://a.test</a>'']\<rparr>))\<close>
    using cs' [THEN conjunct1]
      full_render_children [OF cs' [THEN conjunct2, THEN conjunct1] m3]
      full_render_children [OF cs' [THEN conjunct2, THEN conjunct2] m4]
    by simp
  show ?thesis by (intro conjI v p n 1 2 3)
qed

section \<open>C5: fields missing from an item\<close>

text \<open>
  C5: for an item whose fields are strings where present, both item templates succeed and
  lay the fragment out from the heading text, the summary text, the why block (improvements
  only) and the link block; a missing \<^verbatim>\<open>headline\<close> gives the heading text \<^verbatim>\<open>Untitled\<close>, a missing
  \<^verbatim>\<open>summary\<close> the empty text, and a missing \<^verbatim>\<open>why\<close> or \<^verbatim>\<open>link\<close> leaves its whole block out.
\<close>

theorem missing_fields_fall_back:
  assumes "valid_item (JObj kvs)"
  shows "\<exists>h s w l a.
     interp_or (JObj kvs) ''headline'' ''Untitled'' = Inr h \<and>
     interp_or (JObj kvs) ''summary'' [] = Inr s \<and>
     why_block (JObj kvs) = Inr w \<and>
     link_block ''Read documentation'' (JObj kvs) = Inr l \<and>
     link_block ''Open article'' (JObj kvs) = Inr a \<and>
     improvement_item_html (JObj kvs) =
       Inr (''\<newline>        <h3>'' @ h @ ''</h3>\<newline>        <p>'' @ s @ ''</p>\<newline>        '' @ w @
            ''\<newline>        '' @ l @ ''\<newline>      '') \<and>
     news_item_html (JObj kvs) =
       Inr (''\<newline>        <h3>'' @ h @ ''</h3>\<newline>        <p>'' @ s @ ''</p>\<newline>        '' @ a @
            ''\<newline>      '') \<and>
     (own_property kvs ''headline'' = None \<longrightarrow> h = ''Untitled'') \<and>
     (own_property kvs ''summary'' = None \<longrightarrow> s = []) \<and>
     (own_property kvs ''why'' = None \<longrightarrow> w = []) \<and>
     (own_property kvs ''link'' = None \<longrightarrow> l = [] \<and> a = [])"
  using item_layout [OF assms]
proof (elim exE conjE)
  fix h s w l a
  assume h: "interp_or (JObj kvs) ''headline'' ''Untitled'' = Inr h"
    and s: "interp_or (JObj kvs) ''summary'' [] = Inr s"
    and w: "why_block (JObj kvs) = Inr w"
    and l: "link_block ''Read documentation'' (JObj kvs) = Inr l"
    and a: "link_block ''Open article'' (JObj kvs) = Inr a"
    and i: "improvement_item_html (JObj kvs) =
       Inr (''\<newline>        <h3>'' @ h @ ''</h3>\<newline>        <p>'' @ s @ ''</p>\<newline>        '' @ w @
            ''\<newline>        '' @ l @ ''\<newline>      '')"
    and n: "news_item_html (JObj kvs) =
       Inr (''\<newline>        <h3>'' @ h @ ''</h3>\<newline>        <p>'' @ s @ ''</p>\<newline>        '' @ a @
            ''\<newline>      '')"
  have 1: "own_property kvs ''headline'' = None \<longrightarrow> h = ''Untitled''"
    using h by (simp add: interp_or_obj split: option.splits)
  have 2: "own_property kvs ''summary'' = None \<longrightarrow> s = []"
    using s by (simp add: interp_or_obj split: option.splits)
  have 3: "own_property kvs ''why'' = None \<longrightarrow> w = []"
    using w by (simp add: why_block_obj split: option.splits)
  have 4: "own_property kvs ''link'' = None \<longrightarrow> l = [] \<and> a = []"
    using l a by (simp add: link_block_obj split: option.splits)
  show ?thesis
    by (intro exI conjI) (rule h s w l a i n 1 2 3 4)+
qed

theorem missing_fields_fall_back_witness:
  "valid_item (JObj []) \<and>
   own_property [] ''headline'' = None \<and> own_property [] ''summary'' = None \<and>
   own_property [] ''why'' = None \<and> own_property [] ''link'' = None \<and>
   improvement_item_html (JObj []) =
     Inr ''\<newline>        <h3>Untitled</h3>\<newline>        <p></p>\<newline>        \<newline>        \<newline>      '' \<and>
   news_item_html (JObj []) =
     Inr ''\<newline>        <h3>Untitled</h3>\<newline>        <p></p>\<newline>        \<newline>      ''"
proof -
  have v: "valid_item (JObj [])"
    by (simp add: valid_item_def optional_string_def own_property_Nil)
  have p: "own_property [] ''headline'' = None" "own_property [] ''summary'' = None"
    "own_property [] ''why'' = None" "own_property [] ''link'' = None"
    by (simp_all add: own_property_Nil)
  from missing_fields_fall_back [OF v] p
  have "improvement_item_html (JObj []) =
     Inr ''\<newline>        <h3>Untitled</h3>\<newline>        <p></p>\<newline>        \<newline>        \<newline>      '' \<and>
   news_item_html (JObj []) =
     Inr ''\<newline>        <h3>Untitled</h3>\<newline>        <p></p>\<newline>        \<newline>      ''"
    by (elim exE conjE) simp
  with v p show ?thesis by simp
qed

section \<open>C6: a response without the sequence\<close>

text \<open>
  C6: for a response object that lacks \<^verbatim>\<open>sources\<close> (sources view), or lacks \<^verbatim>\<open>items\<close> or
  \<^verbatim>\<open>sources\<close> and is otherwise of the documented shape (the two feeds), the \<^verbatim>\<open>catch\<close> clause
  is not entered and the region of the absent sequence is empty.
\<close>

theorem absent_sequence_renders_empty:
  "(own_property kvs ''sources'' = None \<and> pg ''sources-agg'' \<noteq> None \<longrightarrow>
      loadSources_attempt (Resolved \<lparr>status = n, json_body = Inr (JObj kvs)\<rparr>) pg =
        (None, pg(''sources-agg'' \<mapsto> \<lparr>html = [], children = []\<rparr>)) \<and>
      loadSources (Resolved \<lparr>status = n, json_body = Inr (JObj kvs)\<rparr>) pg =
        Inr (pg(''sources-agg'' \<mapsto> \<lparr>html = [], children = []\<rparr>))) \<and>
   (valid_feed_response (JObj fs) \<and> pg ''improvements-list'' \<noteq> None \<and>
    pg ''sources-list'' \<noteq> None \<longrightarrow>
      (\<exists>pg'. loadImprovements_attempt (Resolved \<lparr>status = n, json_body = Inr (JObj fs)\<rparr>) pg =
               (None, pg') \<and>
             loadImprovements (Resolved \<lparr>status = n, json_body = Inr (JObj fs)\<rparr>) pg = Inr pg' \<and>
             (own_property fs ''items'' = None \<longrightarrow>
                pg' ''improvements-list'' = Some \<lparr>html = [], children = []\<rparr>) \<and>
             (own_property fs ''sources'' = None \<longrightarrow>
                pg' ''sources-list'' = Some \<lparr>html = [], children = []\<rparr>))) \<and>
   (valid_feed_response (JObj fs) \<and> pg ''news-list'' \<noteq> None \<and>
    pg ''sources-list'' \<noteq> None \<longrightarrow>
      (\<exists>pg'. loadNews_attempt (Resolved \<lparr>status = n, json_body = Inr (JObj fs)\<rparr>) pg =
               (None, pg') \<and>
             loadNews (Resolved \<lparr>status = n, json_body = Inr (JObj fs)\<rparr>) pg = Inr pg' \<and>
             (own_property fs ''items'' = None \<longrightarrow>
                pg' ''news-list'' = Some \<lparr>html = [], children = []\<rparr>) \<and>
             (own_property fs ''sources'' = None \<longrightarrow>
                pg' ''sources-list'' = Some \<lparr>html = [], children = []\<rparr>)))"
proof (intro conjI impI; elim conjE)
  let ?res = "\<lparr>status = n, json_body = Inr (JObj kvs)\<rparr>"
  assume a: "own_property kvs ''sources'' = None" and i: "pg ''sources-agg'' \<noteq> None"
  then show "loadSources_attempt (Resolved ?res) pg =
      (None, pg(''sources-agg'' \<mapsto> \<lparr>html = [], children = []\<rparr>))"
    by (simp add: loadSources_attempt_data sequence_failure_absent region_absent)
next
  let ?res = "\<lparr>status = n, json_body = Inr (JObj kvs)\<rparr>"
  assume a: "own_property kvs ''sources'' = None" and i: "pg ''sources-agg'' \<noteq> None"
  then show "loadSources (Resolved ?res) pg =
      Inr (pg(''sources-agg'' \<mapsto> \<lparr>html = [], children = []\<rparr>))"
    by (simp add: loadSources_finish loadSources_attempt_data sequence_failure_absent region_absent)
next
  let ?res = "\<lparr>status = n, json_body = Inr (JObj fs)\<rparr>"
  assume v: "valid_feed_response (JObj fs)" and i: "pg ''improvements-list'' \<noteq> None"
    and j: "pg ''sources-list'' \<noteq> None"
  note nf = valid_feed_no_failure [OF v]
  let ?pg' = "pg(''improvements-list'' \<mapsto> region improvement_item_html item_div (JObj fs) ''items'',
              ''sources-list'' \<mapsto> region source_link_html li (JObj fs) ''sources'')"
  have a: "loadImprovements_attempt (Resolved ?res) pg = (None, ?pg')"
    using i j nf
    by (auto simp: loadImprovements_attempt_data [where pg = pg and res = ?res and data = "JObj fs"])
  then have "loadImprovements (Resolved ?res) pg = Inr ?pg'"
    using i by (simp add: loadImprovements_finish)
  with a show "\<exists>pg'. loadImprovements_attempt (Resolved ?res) pg = (None, pg') \<and>
               loadImprovements (Resolved ?res) pg = Inr pg' \<and>
               (own_property fs ''items'' = None \<longrightarrow>
                  pg' ''improvements-list'' = Some \<lparr>html = [], children = []\<rparr>) \<and>
               (own_property fs ''sources'' = None \<longrightarrow>
                  pg' ''sources-list'' = Some \<lparr>html = [], children = []\<rparr>)"
    by (intro exI [of _ ?pg']) (simp add: region_absent)
next
  let ?res = "\<lparr>status = n, json_body = Inr (JObj fs)\<rparr>"
  assume v: "valid_feed_response (JObj fs)" and i: "pg ''news-list'' \<noteq> None"
    and j: "pg ''sources-list'' \<noteq> None"
  note nf = valid_feed_no_failure [OF v]
  let ?pg' = "pg(''news-list'' \<mapsto> region news_item_html item_div (JObj fs) ''items'',
              ''sources-list'' \<mapsto> region source_link_html li (JObj fs) ''sources'')"
  have a: "loadNews_attempt (Resolved ?res) pg = (None, ?pg')"
    using i j nf
    by (auto simp: loadNews_attempt_data [where pg = pg and res = ?res and data = "JObj fs"])
  then have "loadNews (Resolved ?res) pg = Inr ?pg'"
    using i by (simp add: loadNews_finish)
  with a show "\<exists>pg'. loadNews_attempt (Resolved ?res) pg = (None, pg') \<and>
               loadNews (Resolved ?res) pg = Inr pg' \<and>
               (own_property fs ''items'' = None \<longrightarrow>
                  pg' ''news-list'' = Some \<lparr>html = [], children = []\<rparr>) \<and>
               (own_property fs ''sources'' = None \<longrightarrow>
                  pg' ''sources-list'' = Some \<lparr>html = [], children = []\<rparr>)"
    by (intro exI [of _ ?pg']) (simp add: region_absent)
qed

theorem absent_sequence_renders_empty_witness:
  "own_property [] ''sources'' = None \<and> own_property [] ''items'' = None \<and>
   valid_feed_response (JObj []) \<and>
   example_page ''sources-agg'' \<noteq> None \<and>
   example_page ''improvements-list'' \<noteq> None \<and>
   example_page ''news-list'' \<noteq> None \<and>
   example_page ''sources-list'' \<noteq> None \<and>
   loadSources (Resolved \<lparr>status = 200, json_body = Inr (JObj [])\<rparr>) example_page =
     Inr (example_page(''sources-agg'' \<mapsto> \<lparr>html = [], children = []\<rparr>)) \<and>
   (\<exists>pg'. loadImprovements_attempt (Resolved \<lparr>status = 200, json_body = Inr (JObj [])\<rparr>) example_page =
            (None, pg') \<and>
          loadImprovements (Resolved \<lparr>status = 200, json_body = Inr (JObj [])\<rparr>) example_page = Inr pg' \<and>
          pg' ''improvements-list'' = Some \<lparr>html = [], children = []\<rparr> \<and>
          pg' ''sources-list'' = Some \<lparr>html = [], children = []\<rparr>) \<and>
   (\<exists>pg'. loadNews_attempt (Resolved \<lparr>status = 200, json_body = Inr (JObj [])\<rparr>) example_page =
            (None, pg') \<and>
          loadNews (Resolved \<lparr>status = 200, json_body = Inr (JObj [])\<rparr>) example_page = Inr pg' \<and>
          pg' ''news-list'' = Some \<lparr>html = [], children = []\<rparr> \<and>
          pg' ''sources-list'' = Some \<lparr>html = [], children = []\<rparr>)"
proof -
  have p: "example_page ''sources-agg'' \<noteq> None" "example_page ''improvements-list'' \<noteq> None"
    "example_page ''news-list'' \<noteq> None" "example_page ''sources-list'' \<noteq> None"
    by (simp_all add: example_page_def)
  have a: "own_property [] ''sources'' = None" "own_property [] ''items'' = None"
    by (simp_all add: own_property_Nil)
  have v: "valid_feed_response (JObj [])"
    by (simp add: valid_feed_response_def optional_array_def own_property_Nil)
  note t = absent_sequence_renders_empty [of "[]" example_page 200 "[]"]
  have 1: "loadSources (Resolved \<lparr>status = 200, json_body = Inr (JObj [])\<rparr>) example_page =
     Inr (example_page(''sources-agg'' \<mapsto> \<lparr>html = [], children = []\<rparr>))"
    using t [THEN conjunct1, THEN mp, OF conjI, OF a(1) p(1)] by (rule conjunct2)
  have 2: "\<exists>pg'. loadImprovements_attempt (Resolved \<lparr>status = 200, json_body = Inr (JObj [])\<rparr>) example_page =
            (None, pg') \<and>
          loadImprovements (Resolved \<lparr>status = 200, json_body = Inr (JObj [])\<rparr>) example_page = Inr pg' \<and>
          pg' ''improvements-list'' = Some \<lparr>html = [], children = []\<rparr> \<and>
          pg' ''sources-list'' = Some \<lparr>html = [], children = []\<rparr>"
    using t [THEN conjunct2, THEN conjunct1, THEN mp, OF conjI, OF v conjI, OF p(2) p(4)] a
    by simp
  have 3: "\<exists>pg'. loadNews_attempt (Resolved \<lparr>status = 200, json_body = Inr (JObj [])\<rparr>) example_page =
            (None, pg') \<and>
          loadNews (Resolved \<lparr>status = 200, json_body = Inr (JObj [])\<rparr>) example_page = Inr pg' \<and>
          pg' ''news-list'' = Some \<lparr>html = [], children = []\<rparr> \<and>
          pg' ''sources-list'' = Some \<lparr>html = [], children = []\<rparr>"
    using t [THEN conjunct2, THEN conjunct2, THEN mp, OF conjI, OF v conjI, OF p(3) p(4)] a
    by simp
  show ?thesis by (intro conjI a v p 1 2 3)
qed

section \<open>C7: failures of the request\<close>

text \<open>
  C7: a rejected request and a body that does not parse are caught by the loader, which
  resolves (nothing is rethrown); its container then shows the error message with the
  description of the failure and no entries, and nothing else on the page has changed, so no
  entry was rendered from the failed operation.
\<close>

theorem request_failures_are_swallowed:
  assumes "request_failure out = Some e"
  shows "(pg ''sources-agg'' \<noteq> None \<longrightarrow>
            loadSources out pg =
              Inr (pg(''sources-agg'' \<mapsto>
                showing (''<li>Failed to load sources. '' @ describe e @ ''</li>'')))) \<and>
         (pg ''improvements-list'' \<noteq> None \<longrightarrow>
            loadImprovements out pg =
              Inr (pg(''improvements-list'' \<mapsto>
                showing (''<p>Failed to load improvements. '' @ describe e @ ''</p>'')))) \<and>
         (pg ''news-list'' \<noteq> None \<longrightarrow>
            loadNews out pg =
              Inr (pg(''news-list'' \<mapsto>
                showing (''<p>Failed to load news. '' @ describe e @ ''</p>''))))"
  using assms
  by (simp add: loadSources_finish loadImprovements_finish loadNews_finish
      loadSources_attempt_failure loadImprovements_attempt_failure loadNews_attempt_failure)

theorem request_failures_are_swallowed_witness:
  "request_failure (Rejected (TypeError ''Failed to fetch'')) = Some (TypeError ''Failed to fetch'') \<and>
   example_page ''sources-agg'' \<noteq> None \<and>
   example_page ''improvements-list'' \<noteq> None \<and>
   example_page ''news-list'' \<noteq> None \<and>
   loadSources (Rejected (TypeError ''Failed to fetch'')) example_page =
     Inr (example_page(''sources-agg'' \<mapsto>
       showing ''<li>Failed to load sources. TypeError: Failed to fetch</li>'')) \<and>
   loadImprovements (Rejected (TypeError ''Failed to fetch'')) example_page =
     Inr (example_page(''improvements-list'' \<mapsto>
       showing ''<p>Failed to load improvements. TypeError: Failed to fetch</p>'')) \<and>
   loadNews (Rejected (TypeError ''Failed to fetch'')) example_page =
     Inr (example_page(''news-list'' \<mapsto>
       showing ''<p>Failed to load news. TypeError: Failed to fetch</p>''))"
proof -
  have f: "request_failure (Rejected (TypeError ''Failed to fetch'')) = Some (TypeError ''Failed to fetch'')"
    by (simp add: request_failure_def)
  have p: "example_page ''sources-agg'' \<noteq> None" "example_page ''improvements-list'' \<noteq> None"
    "example_page ''news-list'' \<noteq> None"
    by (simp_all add: example_page_def)
  have d: "describe (TypeError ''Failed to fetch'') = ''TypeError: Failed to fetch''"
    by (simp add: describe_def TypeError_def)
  note t = request_failures_are_swallowed [OF f, of example_page]
  have 1: "loadSources (Rejected (TypeError ''Failed to fetch'')) example_page =
     Inr (example_page(''sources-agg'' \<mapsto>
       showing ''<li>Failed to load sources. TypeError: Failed to fetch</li>''))"
    using t [THEN conjunct1, THEN mp, OF p(1)] by (simp add: d)
  have 2: "loadImprovements (Rejected (TypeError ''Failed to fetch'')) example_page =
     Inr (example_page(''improvements-list'' \<mapsto>
       showing ''<p>Failed to load improvements. TypeError: Failed to fetch</p>''))"
    using t [THEN conjunct2, THEN conjunct1, THEN mp, OF p(2)] by (simp add: d)
  have 3: "loadNews (Rejected (TypeError ''Failed to fetch'')) example_page =
     Inr (example_page(''news-list'' \<mapsto>
       showing ''<p>Failed to load news. TypeError: Failed to fetch</p>''))"
    using t [THEN conjunct2, THEN conjunct2, THEN mp, OF p(3)] by (simp add: d)
  show ?thesis by (intro conjI f p 1 2 3)
qed

section \<open>C8: anchors\<close>

text \<open>
  C8, as stated, fails: the templates interpolate the values of the response into markup
  as they are. For the source \<^verbatim>\<open>"><a href="x">\<close> the fragment of the source link holds three
  anchors written by the value itself, and none of them carries \<^verbatim>\<open>target\<close> or \<^verbatim>\<open>rel\<close>.
\<close>

theorem injected_anchor_lacks_noopener:
  \<open>source_link_html (JStr ''"><a href="x">'') =
     Inr ''<a href=""><a href="x">" target="_blank" rel="noopener">"><a href="x"></a>'' \<and>
   anchor_tags ''<a href=""><a href="x">" target="_blank" rel="noopener">"><a href="x"></a>'' =
     [''<a href=""'', ''<a href="x"'', ''<a href="x"''] \<and>
   \<not> carries_noopener ''<a href=""'' \<and>
   \<not> carries_noopener ''<a href="x"''\<close>
  by (simp add: source_link_html_def bind_def anchor_tags_def tags_def opens_anchor_def is_space_def
      carries_noopener_def)

text \<open>
  C8, amended: for entries whose interpolated values are strings such that no value placed
  in text (\<^verbatim>\<open>from\<close>, \<^verbatim>\<open>url\<close>, \<^verbatim>\<open>headline\<close>, \<^verbatim>\<open>summary\<close>, \<^verbatim>\<open>why\<close>) holds a \<^verbatim>\<open><\<close> and no value placed in an
  \<^verbatim>\<open>href\<close> (\<^verbatim>\<open>url\<close>, \<^verbatim>\<open>link\<close>) holds a double quote, every anchor in the fragment of a source entry,
  of a source link and of an item is the one the template writes, with the value as its
  \<^verbatim>\<open>href\<close>, and carries \<^verbatim>\<open>target="_blank"\<close> and \<^verbatim>\<open>rel="noopener"\<close>; an item has that anchor exactly
  when its \<^verbatim>\<open>link\<close> is a non-empty string.
\<close>

theorem anchors_of_safe_entries_carry_noopener:
  \<open>(own_property kvs ''from'' = Some (JStr a) \<and> own_property kvs ''url'' = Some (JStr u) \<and>
    text_safe a \<and> text_safe u \<and> href_safe u \<longrightarrow>
      (\<exists>h. source_entry_html (JObj kvs) = Inr h \<and>
           anchor_tags h = [''<a href="'' @ u @ ''" target="_blank" rel="noopener"''] \<and>
           list_all carries_noopener (anchor_tags h))) \<and>
   (text_safe v \<and> href_safe v \<longrightarrow>
      (\<exists>h. source_link_html (JStr v) = Inr h \<and>
           anchor_tags h = [''<a href="'' @ v @ ''" target="_blank" rel="noopener"''] \<and>
           list_all carries_noopener (anchor_tags h))) \<and>
   (safe_item item \<longrightarrow>
      (\<exists>h n. improvement_item_html item = Inr h \<and> news_item_html item = Inr n \<and>
           anchor_tags n = anchor_tags h \<and>
           anchor_tags h =
             (case get_prop item ''link'' of
                Inr (Json (JStr l)) \<Rightarrow>
                  if l = [] then [] else [''<a href="'' @ l @ ''" target="_blank" rel="noopener"'']
              | _ \<Rightarrow> []) \<and>
           list_all carries_noopener (anchor_tags h) \<and>
           list_all carries_noopener (anchor_tags n)))\<close>
proof (intro conjI impI; (elim conjE)?)
  assume f: "own_property kvs ''from'' = Some (JStr a)" "own_property kvs ''url'' = Some (JStr u)"
    and m: "text_safe a" "text_safe u" "href_safe u"
  let ?h = \<open>''['' @ a @ ''] <a href="'' @ u @ ''" target="_blank" rel="noopener">'' @ u @ ''</a>''\<close>
  have 1: "source_entry_html (JObj kvs) = Inr ?h"
    using f by (simp add: source_entry_html_def interp_obj bind_def)
  have 2: \<open>anchor_tags ?h = [''<a href="'' @ u @ ''" target="_blank" rel="noopener"'']\<close>
    using m
    by (simp add: anchor_tags_def tags_def scan_text scan_quoted opens_anchor_def is_space_def)
  have 3: "list_all carries_noopener (anchor_tags ?h)"
    unfolding 2 using carries_noopener_anchor [of u] by simp
  from 1 2 3 show \<open>\<exists>h. source_entry_html (JObj kvs) = Inr h \<and>
           anchor_tags h = [''<a href="'' @ u @ ''" target="_blank" rel="noopener"''] \<and>
           list_all carries_noopener (anchor_tags h)\<close>
    by (intro exI conjI)
next
  assume m: "text_safe v" "href_safe v"
  let ?h = \<open>''<a href="'' @ v @ ''" target="_blank" rel="noopener">'' @ v @ ''</a>''\<close>
  have 1: "source_link_html (JStr v) = Inr ?h"
    by (simp add: source_link_html_def bind_def)
  have 2: \<open>anchor_tags ?h = [''<a href="'' @ v @ ''" target="_blank" rel="noopener"'']\<close>
    using m by (rule anchor_tags_link)
  have 3: "list_all carries_noopener (anchor_tags ?h)"
    unfolding 2 using carries_noopener_anchor [of v] by simp
  from 1 2 3 show \<open>\<exists>h. source_link_html (JStr v) = Inr h \<and>
           anchor_tags h = [''<a href="'' @ v @ ''" target="_blank" rel="noopener"''] \<and>
           list_all carries_noopener (anchor_tags h)\<close>
    by (intro exI conjI)
next
  assume "safe_item item"
  then have \<open>\<exists>h n. improvement_item_html item = Inr h \<and> news_item_html item = Inr n \<and>
     anchor_tags n = anchor_tags h \<and>
     anchor_tags h =
       (case get_prop item ''link'' of
          Inr (Json (JStr l)) \<Rightarrow>
            if l = [] then [] else [''<a href="'' @ l @ ''" target="_blank" rel="noopener"'']
        | _ \<Rightarrow> [])\<close>
    by (rule safe_item_anchors)
  then obtain h where \<open>\<exists>n. improvement_item_html item = Inr h \<and> news_item_html item = Inr n \<and>
     anchor_tags n = anchor_tags h \<and>
     anchor_tags h =
       (case get_prop item ''link'' of
          Inr (Json (JStr l)) \<Rightarrow>
            if l = [] then [] else [''<a href="'' @ l @ ''" target="_blank" rel="noopener"'']
        | _ \<Rightarrow> [])\<close> ..
  then obtain n where hn: \<open>improvement_item_html item = Inr h \<and> news_item_html item = Inr n \<and>
     anchor_tags n = anchor_tags h \<and>
     anchor_tags h =
       (case get_prop item ''link'' of
          Inr (Json (JStr l)) \<Rightarrow>
            if l = [] then [] else [''<a href="'' @ l @ ''" target="_blank" rel="noopener"'']
        | _ \<Rightarrow> [])\<close> ..
  have c: \<open>list_all carries_noopener
       (case get_prop item ''link'' of
          Inr (Json (JStr l)) \<Rightarrow>
            if l = [] then [] else [''<a href="'' @ l @ ''" target="_blank" rel="noopener"'']
        | _ \<Rightarrow> [])\<close>
    using carries_noopener_anchor
    by (simp split: sum.splits jsval.splits json.splits del: get_prop.simps)
  from hn c have "list_all carries_noopener (anchor_tags h)" "list_all carries_noopener (anchor_tags n)"
    by simp_all
  with hn show \<open>\<exists>h n. improvement_item_html item = Inr h \<and> news_item_html item = Inr n \<and>
           anchor_tags n = anchor_tags h \<and>
           anchor_tags h =
             (case get_prop item ''link'' of
                Inr (Json (JStr l)) \<Rightarrow>
                  if l = [] then [] else [''<a href="'' @ l @ ''" target="_blank" rel="noopener"'']
              | _ \<Rightarrow> []) \<and>
           list_all carries_noopener (anchor_tags h) \<and>
           list_all carries_noopener (anchor_tags n)\<close>
    apply -
    apply (rule exI [of _ h], rule exI [of _ n])
    apply (elim conjE)
    apply simp
    done
qed

theorem anchors_of_safe_entries_carry_noopener_witness:
  \<open>own_property [(''from'', JStr ''A "quoted" > B''), (''url'', JStr ''http://x.test/?a>b'')] ''from'' =
     Some (JStr ''A "quoted" > B'') \<and>
   own_property [(''from'', JStr ''A "quoted" > B''), (''url'', JStr ''http://x.test/?a>b'')] ''url'' =
     Some (JStr ''http://x.test/?a>b'') \<and>
   text_safe ''A "quoted" > B'' \<and> text_safe ''http://x.test/?a>b'' \<and>
   href_safe ''http://x.test/?a>b'' \<and>
   safe_item (JObj [(''headline'', JStr ''Ranker "v2" > v1''), (''link'', JStr ''http://x.test/?q=<a>'')]) \<and>
   (\<exists>h. source_entry_html
          (JObj [(''from'', JStr ''A "quoted" > B''), (''url'', JStr ''http://x.test/?a>b'')]) = Inr h \<and>
        anchor_tags h = [''<a href="http://x.test/?a>b" target="_blank" rel="noopener"''] \<and>
        list_all carries_noopener (anchor_tags h)) \<and>
   (\<exists>h. source_link_html (JStr ''http://x.test/?a>b'') = Inr h \<and>
        anchor_tags h = [''<a href="http://x.test/?a>b" target="_blank" rel="noopener"''] \<and>
        list_all carries_noopener (anchor_tags h)) \<and>
   (\<exists>h n. improvement_item_html
            (JObj [(''headline'', JStr ''Ranker "v2" > v1''), (''link'', JStr ''http://x.test/?q=<a>'')]) =
             Inr h \<and>
          news_item_html
            (JObj [(''headline'', JStr ''Ranker "v2" > v1''), (''link'', JStr ''http://x.test/?q=<a>'')]) =
             Inr n \<and>
          anchor_tags h = [''<a href="http://x.test/?q=<a>" target="_blank" rel="noopener"''] \<and>
          anchor_tags n = [''<a href="http://x.test/?q=<a>" target="_blank" rel="noopener"''] \<and>
          list_all carries_noopener (anchor_tags h) \<and>
          list_all carries_noopener (anchor_tags n))\<close>
proof -
  let ?kvs = \<open>[(''from'', JStr ''A "quoted" > B''), (''url'', JStr ''http://x.test/?a>b'')]\<close>
  let ?item = \<open>JObj [(''headline'', JStr ''Ranker "v2" > v1''), (''link'', JStr ''http://x.test/?q=<a>'')]\<close>
  have f: \<open>own_property ?kvs ''from'' = Some (JStr ''A "quoted" > B'')\<close>
    "own_property ?kvs ''url'' = Some (JStr ''http://x.test/?a>b'')"
    by (simp_all add: own_property_def)
  have m: \<open>text_safe ''A "quoted" > B''\<close> "text_safe ''http://x.test/?a>b''"
    "href_safe ''http://x.test/?a>b''"
    by (simp_all add: text_safe_def href_safe_def)
  have i: "safe_item ?item"
    by (simp add: safe_item_def safe_field_def own_property_def text_safe_def href_safe_def)
  note t = anchors_of_safe_entries_carry_noopener
    [of ?kvs \<open>''A "quoted" > B''\<close> "''http://x.test/?a>b''" "''http://x.test/?a>b''" ?item]
  have 1: \<open>\<exists>h. source_entry_html (JObj ?kvs) = Inr h \<and>
        anchor_tags h = [''<a href="http://x.test/?a>b" target="_blank" rel="noopener"''] \<and>
        list_all carries_noopener (anchor_tags h)\<close>
    using t [THEN conjunct1, THEN mp, OF conjI, OF f(1) conjI, OF f(2) conjI, OF m(1) conjI, OF m(2) m(3)]
    by simp
  have 2: \<open>\<exists>h. source_link_html (JStr ''http://x.test/?a>b'') = Inr h \<and>
        anchor_tags h = [''<a href="http://x.test/?a>b" target="_blank" rel="noopener"''] \<and>
        list_all carries_noopener (anchor_tags h)\<close>
    using t [THEN conjunct2, THEN conjunct1, THEN mp, OF conjI, OF m(2) m(3)] by simp
  from t [THEN conjunct2, THEN conjunct2, THEN mp, OF i]
  obtain h where \<open>\<exists>n. improvement_item_html ?item = Inr h \<and> news_item_html ?item = Inr n \<and>
           anchor_tags n = anchor_tags h \<and>
           anchor_tags h =
             (case get_prop ?item ''link'' of
                Inr (Json (JStr l)) \<Rightarrow>
                  if l = [] then [] else [''<a href="'' @ l @ ''" target="_blank" rel="noopener"'']
              | _ \<Rightarrow> []) \<and>
           list_all carries_noopener (anchor_tags h) \<and>
           list_all carries_noopener (anchor_tags n)\<close> ..
  then obtain n where hn: \<open>improvement_item_html ?item = Inr h \<and> news_item_html ?item = Inr n \<and>
           anchor_tags n = anchor_tags h \<and>
           anchor_tags h =
             (case get_prop ?item ''link'' of
                Inr (Json (JStr l)) \<Rightarrow>
                  if l = [] then [] else [''<a href="'' @ l @ ''" target="_blank" rel="noopener"'']
              | _ \<Rightarrow> []) \<and>
           list_all carries_noopener (anchor_tags h) \<and>
           list_all carries_noopener (anchor_tags n)\<close> ..
  have g: \<open>(case get_prop ?item ''link'' of
                Inr (Json (JStr l)) \<Rightarrow>
                  if l = [] then [] else [''<a href="'' @ l @ ''" target="_blank" rel="noopener"'']
              | _ \<Rightarrow> []) = [''<a href="http://x.test/?q=<a>" target="_blank" rel="noopener"'']\<close>
    by (simp add: own_property_def)
  from hn have 3: \<open>\<exists>h n. improvement_item_html ?item = Inr h \<and> news_item_html ?item = Inr n \<and>
          anchor_tags h = [''<a href="http://x.test/?q=<a>" target="_blank" rel="noopener"''] \<and>
          anchor_tags n = [''<a href="http://x.test/?q=<a>" target="_blank" rel="noopener"''] \<and>
          list_all carries_noopener (anchor_tags h) \<and>
          list_all carries_noopener (anchor_tags n)\<close>
    unfolding g
    apply -
    apply (rule exI [of _ h], rule exI [of _ n])
    apply (elim conjE)
    apply simp
    done
  show ?thesis by (intro conjI f m i 1 2 3)
qed

section \<open>C9: fields that are present and empty\<close>

text \<open>
  C9: a \<^verbatim>\<open>headline\<close> or \<^verbatim>\<open>summary\<close> that is present and not \<^verbatim>\<open>null\<close> is rendered as it is, the
  empty string as the empty text (the defaults are for \<^verbatim>\<open>null\<close> and \<^verbatim>\<open>undefined\<close> only); a
  \<^verbatim>\<open>why\<close> or \<^verbatim>\<open>link\<close> that is present and falsy, such as the empty string, leaves its block
  out, and the fragment is the one of the item without that field.
\<close>

theorem empty_string_fields:
  "(valid_item (JObj kvs) \<longrightarrow>
      (\<exists>h s w l a.
         interp_or (JObj kvs) ''headline'' ''Untitled'' = Inr h \<and>
         interp_or (JObj kvs) ''summary'' [] = Inr s \<and>
         why_block (JObj kvs) = Inr w \<and>
         link_block ''Read documentation'' (JObj kvs) = Inr l \<and>
         link_block ''Open article'' (JObj kvs) = Inr a \<and>
         improvement_item_html (JObj kvs) =
           Inr (''\<newline>        <h3>'' @ h @ ''</h3>\<newline>        <p>'' @ s @ ''</p>\<newline>        '' @ w @
                ''\<newline>        '' @ l @ ''\<newline>      '') \<and>
         news_item_html (JObj kvs) =
           Inr (''\<newline>        <h3>'' @ h @ ''</h3>\<newline>        <p>'' @ s @ ''</p>\<newline>        '' @ a @
                ''\<newline>      '') \<and>
         (own_property kvs ''headline'' = Some (JStr []) \<longrightarrow> h = []) \<and>
         (own_property kvs ''summary'' = Some (JStr []) \<longrightarrow> s = []) \<and>
         (own_property kvs ''why'' = Some (JStr []) \<longrightarrow> w = []) \<and>
         (own_property kvs ''link'' = Some (JStr []) \<longrightarrow> l = [] \<and> a = []))) \<and>
   (own_property kvs ''headline'' = Some hv \<and> hv \<noteq> JNull \<longrightarrow>
      interp_or (JObj kvs) ''headline'' ''Untitled'' = to_string hv) \<and>
   (own_property kvs ''summary'' = Some sv \<and> sv \<noteq> JNull \<longrightarrow>
      interp_or (JObj kvs) ''summary'' [] = to_string sv) \<and>
   (own_property kvs ''why'' = Some wv \<and> \<not> truthy (Json wv) \<longrightarrow>
      why_block (JObj kvs) = Inr [] \<and>
      improvement_item_html (JObj kvs) = improvement_item_html (JObj (without ''why'' kvs))) \<and>
   (own_property kvs ''link'' = Some lv \<and> \<not> truthy (Json lv) \<longrightarrow>
      link_block label (JObj kvs) = Inr [] \<and>
      improvement_item_html (JObj kvs) = improvement_item_html (JObj (without ''link'' kvs)) \<and>
      news_item_html (JObj kvs) = news_item_html (JObj (without ''link'' kvs))) \<and>
   to_string (JStr []) = Inr [] \<and> \<not> truthy (Json (JStr []))"
proof (intro conjI impI)
  assume "valid_item (JObj kvs)"
  from item_layout [OF this]
  show "\<exists>h s w l a.
         interp_or (JObj kvs) ''headline'' ''Untitled'' = Inr h \<and>
         interp_or (JObj kvs) ''summary'' [] = Inr s \<and>
         why_block (JObj kvs) = Inr w \<and>
         link_block ''Read documentation'' (JObj kvs) = Inr l \<and>
         link_block ''Open article'' (JObj kvs) = Inr a \<and>
         improvement_item_html (JObj kvs) =
           Inr (''\<newline>        <h3>'' @ h @ ''</h3>\<newline>        <p>'' @ s @ ''</p>\<newline>        '' @ w @
                ''\<newline>        '' @ l @ ''\<newline>      '') \<and>
         news_item_html (JObj kvs) =
           Inr (''\<newline>        <h3>'' @ h @ ''</h3>\<newline>        <p>'' @ s @ ''</p>\<newline>        '' @ a @
                ''\<newline>      '') \<and>
         (own_property kvs ''headline'' = Some (JStr []) \<longrightarrow> h = []) \<and>
         (own_property kvs ''summary'' = Some (JStr []) \<longrightarrow> s = []) \<and>
         (own_property kvs ''why'' = Some (JStr []) \<longrightarrow> w = []) \<and>
         (own_property kvs ''link'' = Some (JStr []) \<longrightarrow> l = [] \<and> a = [])"
  proof (elim exE conjE)
    fix h s w l a
    assume h: "interp_or (JObj kvs) ''headline'' ''Untitled'' = Inr h"
      and s: "interp_or (JObj kvs) ''summary'' [] = Inr s"
      and w: "why_block (JObj kvs) = Inr w"
      and l: "link_block ''Read documentation'' (JObj kvs) = Inr l"
      and a: "link_block ''Open article'' (JObj kvs) = Inr a"
      and i: "improvement_item_html (JObj kvs) =
         Inr (''\<newline>        <h3>'' @ h @ ''</h3>\<newline>        <p>'' @ s @ ''</p>\<newline>        '' @ w @
              ''\<newline>        '' @ l @ ''\<newline>      '')"
      and n: "news_item_html (JObj kvs) =
         Inr (''\<newline>        <h3>'' @ h @ ''</h3>\<newline>        <p>'' @ s @ ''</p>\<newline>        '' @ a @
              ''\<newline>      '')"
    have 1: "own_property kvs ''headline'' = Some (JStr []) \<longrightarrow> h = []"
      using h by (auto simp: interp_or_obj)
    have 2: "own_property kvs ''summary'' = Some (JStr []) \<longrightarrow> s = []"
      using s by (auto simp: interp_or_obj)
    have 3: "own_property kvs ''why'' = Some (JStr []) \<longrightarrow> w = []"
      using w by (auto simp: why_block_obj)
    have 4: "own_property kvs ''link'' = Some (JStr []) \<longrightarrow> l = [] \<and> a = []"
      using l a by (auto simp: link_block_obj)
    show ?thesis
      by (intro exI conjI) (rule h s w l a i n 1 2 3 4)+
  qed
qed (simp_all add: interp_or_obj falsy_why falsy_link)

theorem empty_string_fields_witness:
  "valid_item (JObj empty_fields) \<and>
   own_property empty_fields ''headline'' = Some (JStr []) \<and>
   own_property empty_fields ''summary'' = Some (JStr []) \<and>
   own_property empty_fields ''why'' = Some (JStr []) \<and>
   own_property empty_fields ''link'' = Some (JStr []) \<and>
   JStr [] \<noteq> JNull \<and> \<not> truthy (Json (JStr [])) \<and>
   interp_or (JObj empty_fields) ''headline'' ''Untitled'' = Inr [] \<and>
   interp_or (JObj empty_fields) ''summary'' [] = Inr [] \<and>
   why_block (JObj empty_fields) = Inr [] \<and>
   link_block ''Read documentation'' (JObj empty_fields) = Inr [] \<and>
   link_block ''Open article'' (JObj empty_fields) = Inr [] \<and>
   improvement_item_html (JObj empty_fields) =
     Inr ''\<newline>        <h3></h3>\<newline>        <p></p>\<newline>        \<newline>        \<newline>      '' \<and>
   news_item_html (JObj empty_fields) =
     Inr ''\<newline>        <h3></h3>\<newline>        <p></p>\<newline>        \<newline>      '' \<and>
   improvement_item_html (JObj empty_fields) =
     improvement_item_html (JObj (without ''why'' empty_fields)) \<and>
   improvement_item_html (JObj empty_fields) =
     improvement_item_html (JObj (without ''link'' empty_fields)) \<and>
   news_item_html (JObj empty_fields) = news_item_html (JObj (without ''link'' empty_fields))"
proof -
  have v: "valid_item (JObj empty_fields)"
    by (simp add: valid_item_def optional_string_def empty_fields_def own_property_def)
  have p: "own_property empty_fields ''headline'' = Some (JStr [])"
    "own_property empty_fields ''summary'' = Some (JStr [])"
    "own_property empty_fields ''why'' = Some (JStr [])"
    "own_property empty_fields ''link'' = Some (JStr [])"
    by (simp_all add: empty_fields_def own_property_def)
  have q: "JStr [] \<noteq> JNull" "\<not> truthy (Json (JStr []))"
    by simp_all
  note t = empty_string_fields
    [of empty_fields "JStr []" "JStr []" "JStr []" "JStr []" "''Read documentation''"]
  note parts = t [THEN conjunct1, THEN mp, OF v]
  note rest = t [THEN conjunct2]
  note hd = rest [THEN conjunct1, THEN mp, OF conjI, OF p(1) q(1)]
  note sm = rest [THEN conjunct2, THEN conjunct1, THEN mp, OF conjI, OF p(2) q(1)]
  note wh = rest [THEN conjunct2, THEN conjunct2, THEN conjunct1, THEN mp, OF conjI, OF p(3) q(2)]
  note lk = rest [THEN conjunct2, THEN conjunct2, THEN conjunct2, THEN conjunct1, THEN mp,
      OF conjI, OF p(4) q(2)]
  have e: "to_string (JStr []) = Inr []" by simp
  from parts p have frag: "interp_or (JObj empty_fields) ''headline'' ''Untitled'' = Inr [] \<and>
   interp_or (JObj empty_fields) ''summary'' [] = Inr [] \<and>
   why_block (JObj empty_fields) = Inr [] \<and>
   link_block ''Read documentation'' (JObj empty_fields) = Inr [] \<and>
   link_block ''Open article'' (JObj empty_fields) = Inr [] \<and>
   improvement_item_html (JObj empty_fields) =
     Inr ''\<newline>        <h3></h3>\<newline>        <p></p>\<newline>        \<newline>        \<newline>      '' \<and>
   news_item_html (JObj empty_fields) =
     Inr ''\<newline>        <h3></h3>\<newline>        <p></p>\<newline>        \<newline>      ''"
    by (elim exE conjE) simp
  show ?thesis
    by (intro conjI v p q frag [THEN conjunct1] frag [THEN conjunct2, THEN conjunct1]
        frag [THEN conjunct2, THEN conjunct2, THEN conjunct1]
        frag [THEN conjunct2, THEN conjunct2, THEN conjunct2, THEN conjunct1]
        frag [THEN conjunct2, THEN conjunct2, THEN conjunct2, THEN conjunct2, THEN conjunct1]
        frag [THEN conjunct2, THEN conjunct2, THEN conjunct2, THEN conjunct2, THEN conjunct2, THEN conjunct1]
        frag [THEN conjunct2, THEN conjunct2, THEN conjunct2, THEN conjunct2, THEN conjunct2, THEN conjunct2]
        wh [THEN conjunct2] lk [THEN conjunct2, THEN conjunct1] lk [THEN conjunct2, THEN conjunct2])
qed

section \<open>C10: the sources container when a failure is caught\<close>

text \<open>
  C10: in the improvements and news views, when the \<^verbatim>\<open>catch\<close> clause receives an error, the
  loader resolves with the page as it was when the error was thrown, but for the list
  container, which shows the error message. The sources container is therefore left as it was
  at that point: with the content the page gave it, or cleared and holding the links of the
  sources before the one that threw; the error message is not written to it.
\<close>

theorem sources_container_kept_on_failure:
  "(pg ''improvements-list'' \<noteq> None \<and> loadImprovements_attempt out pg = (Some e, pg1) \<longrightarrow>
      loadImprovements out pg =
        Inr (pg1(''improvements-list'' \<mapsto>
          showing (''<p>Failed to load improvements. '' @ describe e @ ''</p>''))) \<and>
      (pg1 ''sources-list'' = pg ''sources-list'' \<or>
       (\<exists>res data. out = Resolved res \<and> json_body res = Inr data \<and>
          pg1 ''sources-list'' =
            Some \<lparr>html = [],
                  children = map li (rendered source_link_html (entries data ''sources''))\<rparr>))) \<and>
   (pg ''news-list'' \<noteq> None \<and> loadNews_attempt out pg = (Some e', pg2) \<longrightarrow>
      loadNews out pg =
        Inr (pg2(''news-list'' \<mapsto>
          showing (''<p>Failed to load news. '' @ describe e' @ ''</p>''))) \<and>
      (pg2 ''sources-list'' = pg ''sources-list'' \<or>
       (\<exists>res data. out = Resolved res \<and> json_body res = Inr data \<and>
          pg2 ''sources-list'' =
            Some \<lparr>html = [],
                  children = map li (rendered source_link_html (entries data ''sources''))\<rparr>)))"
  using improvements_sources_on_failure [of pg out e pg1] news_sources_on_failure [of pg out e' pg2]
  by (simp add: region_def)

theorem sources_container_kept_on_failure_witness:
  \<open>example_page ''improvements-list'' \<noteq> None \<and> example_page ''news-list'' \<noteq> None \<and>
   loadImprovements_attempt (ok_response broken_feed) example_page =
     (Some (TypeError ''Cannot convert object to primitive value''), improvements_page_at_failure) \<and>
   loadNews_attempt (ok_response broken_feed) example_page =
     (Some (TypeError ''Cannot convert object to primitive value''), news_page_at_failure) \<and>
   loadImprovements (ok_response broken_feed) example_page =
     Inr (improvements_page_at_failure(''improvements-list'' \<mapsto>
       showing ''<p>Failed to load improvements. TypeError: Cannot convert object to primitive value</p>'')) \<and>
   loadNews (ok_response broken_feed) example_page =
     Inr (news_page_at_failure(''news-list'' \<mapsto>
       showing ''<p>Failed to load news. TypeError: Cannot convert object to primitive value</p>'')) \<and>
   improvements_page_at_failure ''sources-list'' =
     Some \<lparr>html = [],
           children = [li ''<a href="http://x.test" target="_blank" rel="noopener">http://x.test</a>'']\<rparr> \<and>
   news_page_at_failure ''sources-list'' =
     Some \<lparr>html = [],
           children = [li ''<a href="http://x.test" target="_blank" rel="noopener">http://x.test</a>'']\<rparr>\<close>
proof -
  let ?e = "TypeError ''Cannot convert object to primitive value''"
  have p: "example_page ''improvements-list'' \<noteq> None" "example_page ''news-list'' \<noteq> None"
    by (simp_all add: example_page_def)
  have s: "example_page ''sources-list'' = Some (showing ''<li>old</li>'')"
    by (simp add: example_page_def)
  have f: "sequence_failure improvement_item_html broken_feed ''items'' = None"
    "sequence_failure news_item_html broken_feed ''items'' = None"
    "sequence_failure source_link_html broken_feed ''sources'' = Some ?e"
    by (simp_all add: sequence_failure_def broken_feed_def own_property_def source_link_html_def
        bind_def)
  have r: "region improvement_item_html item_div broken_feed ''items'' = \<lparr>html = [], children = []\<rparr>"
    "region news_item_html item_div broken_feed ''items'' = \<lparr>html = [], children = []\<rparr>"
    \<open>region source_link_html li broken_feed ''sources'' =
       \<lparr>html = [],
        children = [li ''<a href="http://x.test" target="_blank" rel="noopener">http://x.test</a>'']\<rparr>\<close>
    by (simp_all add: region_def entries_def broken_feed_def own_property_def source_link_html_def
        bind_def)
  have a1: "loadImprovements_attempt (ok_response broken_feed) example_page =
      (Some ?e, improvements_page_at_failure)"
    using p(1) s f r
    by (simp add: ok_response_def improvements_page_at_failure_def
        loadImprovements_attempt_data
          [where pg = example_page and res = "\<lparr>status = 200, json_body = Inr broken_feed\<rparr>"
            and data = broken_feed])
  have a2: "loadNews_attempt (ok_response broken_feed) example_page = (Some ?e, news_page_at_failure)"
    using p(2) s f r
    by (simp add: ok_response_def news_page_at_failure_def
        loadNews_attempt_data
          [where pg = example_page and res = "\<lparr>status = 200, json_body = Inr broken_feed\<rparr>"
            and data = broken_feed])
  have d: "describe ?e = ''TypeError: Cannot convert object to primitive value''"
    by (simp add: describe_def TypeError_def)
  note t = sources_container_kept_on_failure
    [where pg = example_page and out = "ok_response broken_feed" and e = ?e and e' = ?e
      and ?pg1.0 = improvements_page_at_failure and ?pg2.0 = news_page_at_failure]
  have 1: "loadImprovements (ok_response broken_feed) example_page =
     Inr (improvements_page_at_failure(''improvements-list'' \<mapsto>
       showing ''<p>Failed to load improvements. TypeError: Cannot convert object to primitive value</p>''))"
    using t [THEN conjunct1, THEN mp, OF conjI, OF p(1) a1, THEN conjunct1] by (simp add: d)
  have 2: "loadNews (ok_response broken_feed) example_page =
     Inr (news_page_at_failure(''news-list'' \<mapsto>
       showing ''<p>Failed to load news. TypeError: Cannot convert object to primitive value</p>''))"
    using t [THEN conjunct2, THEN mp, OF conjI, OF p(2) a2, THEN conjunct1] by (simp add: d)
  have 3: \<open>improvements_page_at_failure ''sources-list'' =
     Some \<lparr>html = [],
           children = [li ''<a href="http://x.test" target="_blank" rel="noopener">http://x.test</a>'']\<rparr>\<close>
    \<open>news_page_at_failure ''sources-list'' =
     Some \<lparr>html = [],
           children = [li ''<a href="http://x.test" target="_blank" rel="noopener">http://x.test</a>'']\<rparr>\<close>
    by (simp_all add: improvements_page_at_failure_def news_page_at_failure_def)
  show ?thesis by (intro conjI p a1 a2 1 2 3)
qed

end
